theory Spec2Isabelle
  imports Complex_Main "HOL-Library.Sublist"
begin

section \<open>Python values used by cg\_ctdmo\_qct.py\<close>

text \<open>
  The script is Python 3. A \<open>str\<close> is modelled as a \<open>string\<close> whose characters are the
  code points 0 to 255; everything the instrument sends is ASCII after decoding. An
  exception is a value of \<open>error\<close>: every function that can raise returns
  \<open>error + 'a\<close> with \<open>Inl\<close> for the exception.
\<close>

datatype error =
    IndexError
  | ValueError
  | KeyError
  | EOFError
  | UnicodeDecodeError
  | UnicodeEncodeError
  | SerialException
  | OverflowError

definition CR :: char where
  "CR = CHR 0x0D"

definition LF :: char where
  "LF = CHR 0x0A"

text \<open>\<open>str.isspace\<close> on one character, for code points below 256.\<close>

definition is_space :: "char \<Rightarrow> bool" where
  "is_space c = (c \<in> {CHR 0x09, CHR 0x0A, CHR 0x0B, CHR 0x0C, CHR 0x0D,
                       CHR 0x1C, CHR 0x1D, CHR 0x1E, CHR 0x1F, CHR 0x20, CHR 0x85, CHR 0xA0})"

text \<open>The line boundaries of \<open>str.splitlines\<close>, for code points below 256.\<close>

definition is_linebreak :: "char \<Rightarrow> bool" where
  "is_linebreak c = (c \<in> {CHR 0x0A, CHR 0x0B, CHR 0x0C, CHR 0x0D,
                           CHR 0x1C, CHR 0x1D, CHR 0x1E, CHR 0x85})"

text \<open>
  \<open>s.splitlines()\<close>: the lines of \<open>s\<close> without their line boundaries; \<open>\r\n\<close> is one
  boundary, and a boundary at the very end opens no further line. The first argument
  is the line read so far.
\<close>

fun splitlines_from :: "string \<Rightarrow> string \<Rightarrow> string list" where
  "splitlines_from cur [] = (if cur = [] then [] else [cur])"
| "splitlines_from cur (c # cs) =
     (if is_linebreak c
      then (case cs of
              d # ds \<Rightarrow> if c = CR \<and> d = LF then cur # splitlines_from [] ds
                        else cur # splitlines_from [] cs
            | [] \<Rightarrow> cur # splitlines_from [] cs)
      else splitlines_from (cur @ [c]) cs)"

definition splitlines :: "string \<Rightarrow> string list" where
  "splitlines s = splitlines_from [] s"

text \<open>\<open>s.split(sep)\<close> for a one-character separator: never an empty list.\<close>

fun split_on :: "char \<Rightarrow> string \<Rightarrow> string list" where
  "split_on sep [] = [[]]"
| "split_on sep (c # cs) =
     (if c = sep then [] # split_on sep cs
      else (case split_on sep cs of
              f # fs \<Rightarrow> (c # f) # fs
            | [] \<Rightarrow> [[c]]))"

text \<open>\<open>s.strip()\<close>: leading and trailing whitespace removed.\<close>

definition strip :: "string \<Rightarrow> string" where
  "strip s = rev (dropWhile is_space (rev (dropWhile is_space s)))"

text \<open>\<open>s.split()\<close>: the maximal runs of non-whitespace characters.\<close>

fun split_ws_from :: "string \<Rightarrow> string \<Rightarrow> string list" where
  "split_ws_from cur [] = (if cur = [] then [] else [cur])"
| "split_ws_from cur (c # cs) =
     (if is_space c
      then (if cur = [] then split_ws_from [] cs else cur # split_ws_from [] cs)
      else split_ws_from (cur @ [c]) cs)"

definition split_ws :: "string \<Rightarrow> string list" where
  "split_ws s = split_ws_from [] s"

text \<open>\<open>xs[i]\<close> for an index that is not negative: out of range raises IndexError.\<close>

definition getitem :: "'a list \<Rightarrow> nat \<Rightarrow> error + 'a" where
  "getitem xs i = (if i < length xs then Inr (xs ! i) else Inl IndexError)"

text \<open>\<open>sub in s\<close> on strings.\<close>

fun contains :: "string \<Rightarrow> string \<Rightarrow> bool" where
  "contains [] sub = (sub = [])"
| "contains (c # cs) sub = (prefix sub (c # cs) \<or> contains cs sub)"

text \<open>\<open>sep.join(xs)\<close>.\<close>

fun join :: "string \<Rightarrow> string list \<Rightarrow> string" where
  "join sep [] = []"
| "join sep [x] = x"
| "join sep (x # y # ys) = x @ sep @ join sep (y # ys)"

section \<open>Sample parsing\<close>

text \<open>
  \<^verbatim>\<open>
  def split_csv(csv):
      return [x.strip() for x in csv.splitlines()[1].split(',')]
  \<close>
\<close>

definition split_csv :: "string \<Rightarrow> error + string list" where
  "split_csv csv =
     (case getitem (splitlines csv) 1 of
        Inl e \<Rightarrow> Inl e
      | Inr line \<Rightarrow> Inr (map strip (split_on (CHR '','') line)))"

section \<open>The serial port and the capture file\<close>

text \<open>
  The port is pySerial's \<open>serial.Serial(port, baudrate, timeout=5)\<close>. Its state is the
  receive buffer, the bytes the instrument is still going to send, each with the pause
  in milliseconds that precedes it, and the bytes written so far. Time passes only
  while a read waits: a byte whose pause is shorter than the time the read has left
  is received, any other pause lets the read time out. The schedule is finite, so
  the instrument falls silent at some point.
\<close>

record port =
  is_open :: bool
  timeout :: nat
  in_buffer :: string
  incoming :: "(nat \<times> char) list"
  written :: string

text \<open>The capture file, opened for writing in text mode: the text written to it.\<close>

record capture =
  file_closed :: bool
  file_text :: string

definition is_ascii :: "char \<Rightarrow> bool" where
  "is_ascii c = ((of_char c :: nat) < 128)"

text \<open>\<open>bytes.decode('ascii')\<close> and \<open>str.encode('ascii')\<close>.\<close>

definition decode_ascii :: "string \<Rightarrow> error + string" where
  "decode_ascii bs = (if list_all is_ascii bs then Inr bs else Inl UnicodeDecodeError)"

definition encode_ascii :: "string \<Rightarrow> error + string" where
  "encode_ascii s = (if list_all is_ascii s then Inr s else Inl UnicodeEncodeError)"

definition reset_input_buffer :: "port \<Rightarrow> error + port" where
  "reset_input_buffer ser =
     (if is_open ser then Inr (ser\<lparr>in_buffer := []\<rparr>) else Inl SerialException)"

definition ser_write :: "port \<Rightarrow> string \<Rightarrow> error + port" where
  "ser_write ser bs =
     (if is_open ser then Inr (ser\<lparr>written := written ser @ bs\<rparr>) else Inl SerialException)"

text \<open>
  \<open>ser.in_waiting\<close>: the number of bytes in the receive buffer. Bytes scheduled with no
  pause have arrived by the time of the call.
\<close>

fun arrive :: "string \<Rightarrow> (nat \<times> char) list \<Rightarrow> string \<times> (nat \<times> char) list" where
  "arrive buf [] = (buf, [])"
| "arrive buf ((d, c) # inc) = (if d = 0 then arrive (buf @ [c]) inc else (buf, (d, c) # inc))"

definition in_waiting :: "port \<Rightarrow> error + (nat \<times> port)" where
  "in_waiting ser =
     (if is_open ser
      then (case arrive (in_buffer ser) (incoming ser) of
              (buf, inc) \<Rightarrow> Inr (length buf, ser\<lparr>in_buffer := buf, incoming := inc\<rparr>))
      else Inl SerialException)"

text \<open>
  \<open>ser.read(size)\<close>: up to \<open>size\<close> bytes, fewer when the timeout runs out first. The
  second argument is the time the call has left.
\<close>

fun read_upto :: "nat \<Rightarrow> nat \<Rightarrow> string \<Rightarrow> (nat \<times> char) list \<Rightarrow>
    string \<times> string \<times> (nat \<times> char) list" where
  "read_upto 0 t buf inc = ([], buf, inc)"
| "read_upto (Suc n) t (b # buf) inc =
     (case read_upto n t buf inc of (bs, buf', inc') \<Rightarrow> (b # bs, buf', inc'))"
| "read_upto (Suc n) t [] [] = ([], [], [])"
| "read_upto (Suc n) t [] ((d, c) # inc) =
     (if d < t
      then (case read_upto n (t - d) [] inc of (bs, buf', inc') \<Rightarrow> (c # bs, buf', inc'))
      else ([], [], (d - t, c) # inc))"

definition ser_read :: "port \<Rightarrow> nat \<Rightarrow> error + (string \<times> port)" where
  "ser_read ser n =
     (if is_open ser
      then (case read_upto n (timeout ser) (in_buffer ser) (incoming ser) of
              (bs, buf, inc) \<Rightarrow> Inr (bs, ser\<lparr>in_buffer := buf, incoming := inc\<rparr>))
      else Inl SerialException)"


definition file_write :: "capture \<Rightarrow> string \<Rightarrow> error + capture" where
  "file_write f s =
     (if file_closed f then Inl ValueError else Inr (f\<lparr>file_text := file_text f @ s\<rparr>))"


lemma read_upto_length:
  "read_upto n t buf inc = (bs, buf', inc') \<Longrightarrow>
   length bs + length buf' + length inc' = length buf + length inc"
  by (induction n t buf inc arbitrary: bs buf' inc' rule: read_upto.induct)
     (auto split: prod.splits if_splits)

section \<open>The transport channel\<close>

text \<open>
  \<^verbatim>\<open>
  def ser_coms(ser, capfile, cmd):
      ser.reset_input_buffer()
      ser.write((cmd + '\r\n').encode('ascii'))
      cap = ser.read(ser.in_waiting).decode('ascii')
      while True:
          prev = cap
          cap += ser.read(1).decode('ascii')
          if prev == cap:
              capfile.write(cap)
              return cap
  \<close>
  The loop ends at the first \<open>read(1)\<close> that returns nothing.
\<close>

function ser_coms_loop :: "port \<Rightarrow> capture \<Rightarrow> string \<Rightarrow> error + (string \<times> port \<times> capture)" where
  "ser_coms_loop ser capfile cap =
     (case ser_read ser 1 of
        Inl e \<Rightarrow> Inl e
      | Inr (bs, ser') \<Rightarrow>
          (case decode_ascii bs of
             Inl e \<Rightarrow> Inl e
           | Inr s \<Rightarrow>
               (if cap = cap @ s
                then (case file_write capfile (cap @ s) of
                        Inl e \<Rightarrow> Inl e
                      | Inr capfile' \<Rightarrow> Inr (cap @ s, ser', capfile'))
                else ser_coms_loop ser' capfile (cap @ s))))"
  by pat_completeness auto
termination
proof (relation "measure (\<lambda>(ser, capfile, cap). length (in_buffer ser) + length (incoming ser))")
  show "wf (measure (\<lambda>(ser, capfile, cap). length (in_buffer ser) + length (incoming ser)))"
    by simp
next
  fix ser :: port and capfile :: capture and cap x2 bs ser' s
  assume r: "ser_read ser 1 = Inr x2" and x: "(bs, ser') = x2"
    and d: "decode_ascii bs = Inr s" and ne: "cap \<noteq> cap @ s"
  from d have s: "s = bs" by (simp add: decode_ascii_def split: if_splits)
  from r x obtain buf inc where
    ru: "read_upto 1 (timeout ser) (in_buffer ser) (incoming ser) = (bs, buf, inc)"
    and ser': "ser' = ser\<lparr>in_buffer := buf, incoming := inc\<rparr>"
    by (auto simp: ser_read_def split: if_splits prod.splits)
  from read_upto_length [OF ru] ne s ser'
  show "((ser', capfile, cap @ s), (ser, capfile, cap))
        \<in> measure (\<lambda>(ser, capfile, cap). length (in_buffer ser) + length (incoming ser))"
    by (cases bs) auto
qed

definition ser_coms :: "port \<Rightarrow> capture \<Rightarrow> string \<Rightarrow> error + (string \<times> port \<times> capture)" where
  "ser_coms ser capfile cmd =
     (case reset_input_buffer ser of
        Inl e \<Rightarrow> Inl e
      | Inr ser1 \<Rightarrow>
     (case encode_ascii (cmd @ [CR, LF]) of
        Inl e \<Rightarrow> Inl e
      | Inr bytes \<Rightarrow>
     (case ser_write ser1 bytes of
        Inl e \<Rightarrow> Inl e
      | Inr ser2 \<Rightarrow>
     (case in_waiting ser2 of
        Inl e \<Rightarrow> Inl e
      | Inr (n, ser3) \<Rightarrow>
     (case ser_read ser3 n of
        Inl e \<Rightarrow> Inl e
      | Inr (bs, ser4) \<Rightarrow>
     (case decode_ascii bs of
        Inl e \<Rightarrow> Inl e
      | Inr cap \<Rightarrow> ser_coms_loop ser4 capfile cap))))))"



text \<open>What is left of the schedule once a read has timed out in front of it.\<close>

definition after_timeout :: "nat \<Rightarrow> (nat \<times> char) list \<Rightarrow> (nat \<times> char) list" where
  "after_timeout t late = (case late of [] \<Rightarrow> [] | (d, c) # r \<Rightarrow> (d - t, c) # r)"

section \<open>Dates and times\<close>

text \<open>
  A naive \<open>datetime.datetime\<close> with its fields, and a \<open>datetime.timedelta\<close> with the
  three fields Python stores, normalised as its constructor does: \<open>0 \<le> seconds < 86400\<close>
  and \<open>0 \<le> microseconds < 1000000\<close>, the sign carried by \<open>days\<close> alone.
\<close>

record datetime =
  year :: nat
  month :: nat
  day :: nat
  hour :: nat
  minute :: nat
  second :: nat
  microsecond :: nat

record timedelta =
  days :: int
  seconds :: int
  microseconds :: int

definition is_leap :: "nat \<Rightarrow> bool" where
  "is_leap y = (y mod 4 = 0 \<and> (y mod 100 \<noteq> 0 \<or> y mod 400 = 0))"

definition days_in_month :: "nat \<Rightarrow> nat \<Rightarrow> nat" where
  "days_in_month y m =
     (if m = 2 \<and> is_leap y then 29
      else [31, 28, 31, 30, 31, 30, 31, 31, 30, 31, 30, 31] ! (m - 1))"

definition days_before_year :: "nat \<Rightarrow> int" where
  "days_before_year y =
     (let z = int y - 1 in z * 365 + z div 4 - z div 100 + z div 400)"

definition days_before_month :: "nat \<Rightarrow> nat \<Rightarrow> int" where
  "days_before_month y m =
     [0, 31, 59, 90, 120, 151, 181, 212, 243, 273, 304, 334] ! (m - 1)
     + (if m > 2 \<and> is_leap y then 1 else 0)"

text \<open>\<open>d.toordinal()\<close>: day 1 is 1 January of year 1.\<close>

definition toordinal :: "datetime \<Rightarrow> int" where
  "toordinal d = days_before_year (year d) + days_before_month (year d) (month d) + int (day d)"

definition valid_datetime :: "datetime \<Rightarrow> bool" where
  "valid_datetime d =
     (1 \<le> year d \<and> year d \<le> 9999 \<and> 1 \<le> month d \<and> month d \<le> 12
      \<and> 1 \<le> day d \<and> day d \<le> days_in_month (year d) (month d)
      \<and> hour d < 24 \<and> minute d < 60 \<and> second d < 60 \<and> microsecond d < 1000000)"

text \<open>\<open>timedelta(days, seconds, microseconds)\<close> with integer arguments.\<close>

definition timedelta_new :: "int \<Rightarrow> int \<Rightarrow> int \<Rightarrow> timedelta" where
  "timedelta_new d s us =
     (let total = (d * 86400 + s) * 1000000 + us in
      \<lparr>days = total div 86400000000,
       seconds = (total div 1000000) mod 86400,
       microseconds = total mod 1000000\<rparr>)"

text \<open>\<open>a - b\<close> on two datetimes, as \<open>datetime.__sub__\<close> computes it.\<close>

definition datetime_sub :: "datetime \<Rightarrow> datetime \<Rightarrow> timedelta" where
  "datetime_sub a b =
     timedelta_new (toordinal a - toordinal b)
       ((int (second a) + int (minute a) * 60 + int (hour a) * 3600)
        - (int (second b) + int (minute b) * 60 + int (hour b) * 3600))
       (int (microsecond a) - int (microsecond b))"

text \<open>The position of a datetime on the time line, in microseconds.\<close>

definition to_micro :: "datetime \<Rightarrow> int" where
  "to_micro d =
     (toordinal d * 86400 + int (second d) + int (minute d) * 60 + int (hour d) * 3600) * 1000000
     + int (microsecond d)"


text \<open>Decimal digits.\<close>

definition is_digit :: "char \<Rightarrow> bool" where
  "is_digit c = (c \<in> set ''0123456789'')"

definition digit_val :: "char \<Rightarrow> nat" where
  "digit_val c = of_char c - 48"

definition nat_of_digits :: "string \<Rightarrow> nat" where
  "nat_of_digits s = foldl (\<lambda>n c. 10 * n + digit_val c) 0 s"





text \<open>
  \<open>datetime.strptime\<close> for the two formats of the script, \<open>'%d %b %Y'\<close> and
  \<open>'%d %b %Y %H:%M:%S'\<close>, on a string without leading or trailing whitespace (a
  stripped field, tokens joined by single spaces). A number of one or two digits
  within the range of its directive, a month abbreviation of the C locale in any
  case, a year of four digits; a date that does not exist is a ValueError.
\<close>

definition number_upto :: "nat \<Rightarrow> nat \<Rightarrow> string \<Rightarrow> error + nat" where
  "number_upto lo hi s =
     (if (length s = 1 \<or> length s = 2) \<and> list_all is_digit s
         \<and> lo \<le> nat_of_digits s \<and> nat_of_digits s \<le> hi
      then Inr (nat_of_digits s) else Inl ValueError)"

definition lower :: "char \<Rightarrow> char" where
  "lower c =
     (case map_of (zip ''ABCDEFGHIJKLMNOPQRSTUVWXYZ'' ''abcdefghijklmnopqrstuvwxyz'') c of
        None \<Rightarrow> c
      | Some l \<Rightarrow> l)"

definition month_abbr :: "string \<Rightarrow> error + nat" where
  "month_abbr s =
     (case map_of [(''jan'', 1), (''feb'', 2), (''mar'', 3), (''apr'', 4), (''may'', 5),
                   (''jun'', 6), (''jul'', 7), (''aug'', 8), (''sep'', 9), (''oct'', 10),
                   (''nov'', 11), (''dec'', 12)] (map lower s) of
        None \<Rightarrow> Inl ValueError
      | Some m \<Rightarrow> Inr m)"

definition year_4 :: "string \<Rightarrow> error + nat" where
  "year_4 s =
     (if length s = 4 \<and> list_all is_digit s \<and> 1 \<le> nat_of_digits s
      then Inr (nat_of_digits s) else Inl ValueError)"

definition strptime_fields :: "string \<Rightarrow> string \<Rightarrow> string \<Rightarrow> error + datetime" where
  "strptime_fields d b y =
     (case number_upto 1 31 d of
        Inl e \<Rightarrow> Inl e
      | Inr dd \<Rightarrow>
     (case month_abbr b of
        Inl e \<Rightarrow> Inl e
      | Inr mm \<Rightarrow>
     (case year_4 y of
        Inl e \<Rightarrow> Inl e
      | Inr yy \<Rightarrow>
          if dd \<le> days_in_month yy mm
          then Inr \<lparr>year = yy, month = mm, day = dd, hour = 0, minute = 0, second = 0,
                    microsecond = 0\<rparr>
          else Inl ValueError)))"

definition strptime_dbY :: "string \<Rightarrow> error + datetime" where
  "strptime_dbY s =
     (case split_ws s of
        [d, b, y] \<Rightarrow> strptime_fields d b y
      | _ \<Rightarrow> Inl ValueError)"


text \<open>\<open>d.date()\<close>.\<close>

definition date_of :: "datetime \<Rightarrow> nat \<times> nat \<times> nat" where
  "date_of d = (year d, month d, day d)"


text \<open>
  The test of both clock checks, \<open>0 <= (a - b).seconds <= 15\<close>: only the \<open>seconds\<close>
  field of the difference is looked at.
\<close>

definition clock_ok :: "datetime \<Rightarrow> datetime \<Rightarrow> bool" where
  "clock_ok a b = (0 \<le> seconds (datetime_sub a b) \<and> seconds (datetime_sub a b) \<le> 15)"

section \<open>Numbers in a sample\<close>

text \<open>
  \<open>float(s)\<close> on the decimal notation the instrument prints: surrounding whitespace,
  an optional sign, digits with at most one decimal point and at least one digit.
  Anything else is a ValueError here (Python also reads exponents, \<open>inf\<close> and \<open>nan\<close>).
  A float is modelled by the real number it stands for: comparisons are exact, and
  the one subtraction of the script is taken without rounding.
\<close>

definition py_float :: "string \<Rightarrow> error + real" where
  "py_float s =
     (let t = strip s;
          neg = (t \<noteq> [] \<and> hd t = CHR ''-'');
          body = (if t \<noteq> [] \<and> (hd t = CHR ''-'' \<or> hd t = CHR ''+'') then tl t else t);
          ip = takeWhile (\<lambda>c. c \<noteq> CHR ''.'') body;
          fp = drop 1 (dropWhile (\<lambda>c. c \<noteq> CHR ''.'') body)
      in if (ip = [] \<and> fp = []) \<or> \<not> list_all is_digit (ip @ fp) then Inl ValueError
         else Inr ((if neg then - 1 else 1)
                   * (real (nat_of_digits ip) + real (nat_of_digits fp) / 10 ^ length fp)))"

section \<open>The test runner and its surroundings\<close>

text \<open>
  What a run touches besides its own variables: the serial port \<open>ser\<close>, the capture
  file \<open>capfile\<close>,
  the lines the operator is going to type, and the clock. \<open>input()\<close> takes the next
  line and raises EOFError when there is none; the \<open>k\<close>-th call of \<open>dt.utcnow()\<close>
  returns \<open>clock k\<close>; \<open>port_available\<close> says whether \<open>serial.Serial\<close> can open the port.
  Console output is not modelled.
\<close>

record world =
  port_available :: bool
  serial :: port
  capture_file :: capture
  stdin :: "string list"
  clock :: "nat \<Rightarrow> datetime"
  ticks :: nat

text \<open>
  The two result lists of \<open>ctdmo_qct_test\<close>, empty until the function creates them, and
  the rows it writes into the results document at the end (test data, pass mark, fail
  mark). An assignment \<open>xs[i] = v\<close> is written \<open>xs[i := v]\<close>: the lists are created with
  ten entries and never shrink, and the indices are the constants 0 to 9.
\<close>

record run = world +
  step_results_p :: "bool list"
  testdata :: "string option list"
  results_table :: "(string option \<times> string \<times> string) list"

definition coms :: "'a world_scheme \<Rightarrow> string \<Rightarrow> error + (string \<times> 'a world_scheme)" where
  "coms w cmd =
     (case ser_coms (serial w) (capture_file w) cmd of
        Inl e \<Rightarrow> Inl e
      | Inr (resp, ser', capfile') \<Rightarrow>
          Inr (resp, w\<lparr>serial := ser', capture_file := capfile'\<rparr>))"

definition py_input :: "'a world_scheme \<Rightarrow> error + (string \<times> 'a world_scheme)" where
  "py_input w =
     (case stdin w of
        [] \<Rightarrow> Inl EOFError
      | l # ls \<Rightarrow> Inr (l, w\<lparr>stdin := ls\<rparr>))"

definition utcnow :: "'a world_scheme \<Rightarrow> datetime \<times> 'a world_scheme" where
  "utcnow w = (clock w (ticks w), w\<lparr>ticks := Suc (ticks w)\<rparr>)"

text \<open>
  \<open>input("Does this bother you, %s? [y]/n " % username.split()[0])\<close>: the prompt needs
  the first word of the user name.
\<close>

definition ask_bother :: "string \<Rightarrow> 'a world_scheme \<Rightarrow> error + (string \<times> 'a world_scheme)" where
  "ask_bother username w =
     (case getitem (split_ws username) 0 of
        Inl e \<Rightarrow> Inl e
      | Inr first \<Rightarrow> py_input w)"

text \<open>
  \<open>while not this_step_complete: ...\<close>. The body returns the flag it leaves behind; a
  \<open>continue\<close> leaves it False.
\<close>

partial_function (option) while_step ::
    "('s \<Rightarrow> error + (bool \<times> 's)) \<Rightarrow> 's \<Rightarrow> (error + 's) option" where
  "while_step body s =
     (case body s of
        Inl e \<Rightarrow> Some (Inl e)
      | Inr r \<Rightarrow> if fst r then Some (Inr (snd r)) else while_step body (snd r))"

text \<open>\<open>xs[lo:hi] = ys\<close>: the slice is replaced by all of \<open>ys\<close>, whatever its length.\<close>

definition slice_assign :: "'a list \<Rightarrow> nat \<Rightarrow> nat \<Rightarrow> 'a list \<Rightarrow> 'a list" where
  "slice_assign xs lo hi ys = take lo xs @ ys @ drop (max lo hi) xs"

text \<open>Truth value of a \<open>testdata\<close> entry: None and the empty string are false.\<close>

definition truthy :: "string option \<Rightarrow> bool" where
  "truthy v = (case v of None \<Rightarrow> False | Some s \<Rightarrow> s \<noteq> [])"

subsection \<open>Steps 8.3.9 and 8.3.10: the instrument clock\<close>

text \<open>
  \<^verbatim>\<open>
  testdata[3] = "Test not completed"
  rollback_target = (dt.utcnow() - timedelta(days=1)).replace(hour=12,
                                                       minute=0, second=0)
  ser_coms(ser, capfile, '#%sdatetime=%s'
           % (remote_id, rollback_target.strftime('%m%d%Y%H%M%S')))
  rollback_instr = date_from_ds(ser_coms(ser, capfile, '#%sds' % remote_id))
  if not 0 <= (rollback_instr - rollback_target).seconds <= 15:
      response = input("Does this bother you, %s? [y]/n " % username.split()[0])
      if response != "n":
          response = input("Would you like to try again? [y]/n ")
          if response == "n":
              testdata[3] = ("The instrument clock was not set successfully.")
          else: continue
  \<close>
  The result is True when the body goes on to 8.3.10 and False at \<open>continue\<close>.
\<close>

definition clock_set_violation :: "string \<Rightarrow> run \<Rightarrow> error + (bool \<times> run)" where
  "clock_set_violation username r =
     (case ask_bother username r of
        Inl e \<Rightarrow> Inl e
      | Inr (response, r1) \<Rightarrow>
          if response \<noteq> ''n''
          then (case py_input r1 of
                  Inl e \<Rightarrow> Inl e
                | Inr (response2, r2) \<Rightarrow>
                    if response2 = ''n''
                    then Inr (True, r2\<lparr>testdata := (testdata r2)
                           [3 := Some ''The instrument clock was not set successfully.'']\<rparr>)
                    else Inr (False, r2))
          else Inr (True, r1))"

definition clock_set_decision ::
    "string \<Rightarrow> datetime \<Rightarrow> datetime \<Rightarrow> run \<Rightarrow> error + (bool \<times> run)" where
  "clock_set_decision username rollback_instr rollback_target r =
     (if \<not> clock_ok rollback_instr rollback_target
      then clock_set_violation username r
      else Inr (True, r))"


text \<open>
  \<^verbatim>\<open>
  ser_coms(ser, capfile, '#%sdatetime=%s'
           % (remote_id, (dt.utcnow().strftime('%m%d%Y%H%M%S'))))
  currenttime_instr = date_from_ds(ser_coms(ser, capfile, '#%sds' % remote_id))
  if not 0 <= (dt.utcnow() - currenttime_instr).seconds <= 15:
      print(... % (currenttime_instr.strftime(...), dt.utcnow().strftime(...)))
      response = input("Does this bother you, %s? [y]/n " % username.split()[0])
      if response != "n":
          response = input("Would you like to try again? [y]/n ")
          if response == "n":
              if testdata[3]:
                 testdata[3] = testdata[3] + ("\r\nThe instrument clock was "
                                              "not reset successfully.")
              else:
                  testdata[3] = ("The instrument clock was not reset successfully.")
              this_step_complete = True
      else:
          step_results_p[3] = True
          testdata[3] = "Instrument clock set successfully."
          this_step_complete = True
  else:
      step_results_p[3] = True
      testdata[3] = "Instrument clock set successfully."
      this_step_complete = True
  \<close>
  The message printed before the prompt reads the clock once more.
\<close>

definition clock_passed :: "run \<Rightarrow> run" where
  "clock_passed r =
     r\<lparr>step_results_p := (step_results_p r)[3 := True],
       testdata := (testdata r)[3 := Some ''Instrument clock set successfully.'']\<rparr>"

definition clock_reset_violation :: "string \<Rightarrow> run \<Rightarrow> error + (bool \<times> run)" where
  "clock_reset_violation username r =
     (let (printed, r0) = utcnow r
      in case ask_bother username r0 of
        Inl e \<Rightarrow> Inl e
      | Inr (response, r1) \<Rightarrow>
          if response \<noteq> ''n''
          then (case py_input r1 of
                  Inl e \<Rightarrow> Inl e
                | Inr (response2, r2) \<Rightarrow>
                    if response2 = ''n''
                    then (if truthy (testdata r2 ! 3)
                          then Inr (True, r2\<lparr>testdata := (testdata r2)
                                 [3 := Some (the (testdata r2 ! 3) @ [CR, LF]
                                       @ ''The instrument clock was not reset successfully.'')]\<rparr>)
                          else Inr (True, r2\<lparr>testdata := (testdata r2)
                                 [3 := Some ''The instrument clock was not reset successfully.'']\<rparr>))
                    else Inr (False, r2))
          else Inr (True, clock_passed r1))"

definition clock_reset_decision ::
    "string \<Rightarrow> datetime \<Rightarrow> datetime \<Rightarrow> run \<Rightarrow> error + (bool \<times> run)" where
  "clock_reset_decision username now currenttime_instr r =
     (if \<not> clock_ok now currenttime_instr
      then clock_reset_violation username r
      else Inr (True, clock_passed r))"




text \<open>
  A reply as the instrument sends it: the first byte after a pause, the others right
  behind it.
\<close>

definition burst :: "nat \<Rightarrow> string \<Rightarrow> (nat \<times> char) list" where
  "burst pause s = (case s of [] \<Rightarrow> [] | c # cs \<Rightarrow> (pause, c) # map (Pair 0) cs)"

subsection \<open>Steps 8.3.11 and 8.3.12: the sample interval\<close>

text \<open>
  \<^verbatim>\<open>
  testdata[4] = "Test not completed."
  desired_sample_interval = "120"
  ser_coms(ser, capfile, '#%ssampleinterval=%s' % (remote_id, desired_sample_interval))
  ds = ser_coms(ser, capfile, '#%sds' % remote_id).split()
  sample_interval = ds[29]
  if sample_interval != desired_sample_interval:
      response = input("Does this bother you, %s? [y]/n " % username.split()[0])
      if response != "n":
          response = input("Would you like to try again? [y]/n ")
          if response == "n":
              testdata[4] = ("The sample interval was not set successfully.\r\n")
              this_step_complete = True
      else:
          step_results_p[4] = True
          testdata[4] = ("Sampling configuration changed successfully."
                         "\r\n%s" % ' '.join(ds[26:31]))
          this_step_complete = True
  else:
      step_results_p[4] = True
      testdata[4] = ("Sampling configuration changed successfully."
                     "\r\n%s" % ' '.join(ds[26:31]))
      this_step_complete = True
  \<close>
  Step 8.3.12 is the same text on slot 5 with the interval \<open>"10"\<close>, after
  \<open>if step_results_p[5]: step_results_p[5] = False\<close>.
\<close>

definition interval_passed :: "nat \<Rightarrow> string list \<Rightarrow> run \<Rightarrow> run" where
  "interval_passed i ds r =
     r\<lparr>step_results_p := (step_results_p r)[i := True],
       testdata := (testdata r)
         [i := Some (''Sampling configuration changed successfully.'' @ [CR, LF]
                     @ join '' '' (take 5 (drop 26 ds)))]\<rparr>"

definition interval_violation :: "nat \<Rightarrow> string \<Rightarrow> string list \<Rightarrow> run \<Rightarrow> error + (bool \<times> run)" where
  "interval_violation i username ds r =
     (case ask_bother username r of
        Inl e \<Rightarrow> Inl e
      | Inr (response, r1) \<Rightarrow>
          if response \<noteq> ''n''
          then (case py_input r1 of
                  Inl e \<Rightarrow> Inl e
                | Inr (response2, r2) \<Rightarrow>
                    if response2 = ''n''
                    then Inr (True, r2\<lparr>testdata := (testdata r2)
                           [i := Some (''The sample interval was not set successfully.''
                                       @ [CR, LF])]\<rparr>)
                    else Inr (False, r2))
          else Inr (True, interval_passed i ds r1))"

definition interval_decision ::
    "nat \<Rightarrow> string \<Rightarrow> string \<Rightarrow> string list \<Rightarrow> string \<Rightarrow> run \<Rightarrow> error + (bool \<times> run)" where
  "interval_decision i desired_sample_interval username ds sample_interval r =
     (if sample_interval \<noteq> desired_sample_interval
      then interval_violation i username ds r
      else Inr (True, interval_passed i ds r))"

definition interval_check ::
    "nat \<Rightarrow> string \<Rightarrow> string \<Rightarrow> string \<Rightarrow> run \<Rightarrow> error + (bool \<times> run)" where
  "interval_check i desired_sample_interval username remote_id r =
     (let r1 = r\<lparr>testdata := (testdata r)[i := Some ''Test not completed.'']\<rparr>
      in case coms r1 (''#'' @ remote_id @ ''sampleinterval='' @ desired_sample_interval) of
           Inl e \<Rightarrow> Inl e
         | Inr (reply, r2) \<Rightarrow>
        (case coms r2 (''#'' @ remote_id @ ''ds'') of
           Inl e \<Rightarrow> Inl e
         | Inr (ds_reply, r3) \<Rightarrow>
        (let ds = split_ws ds_reply
         in case getitem ds 29 of
              Inl e \<Rightarrow> Inl e
            | Inr sample_interval \<Rightarrow>
                interval_decision i desired_sample_interval username ds sample_interval r3)))"

definition interval_120_body :: "string \<Rightarrow> string \<Rightarrow> run \<Rightarrow> error + (bool \<times> run)" where
  "interval_120_body username remote_id r = interval_check 4 ''120'' username remote_id r"


definition interval_120_step :: "string \<Rightarrow> string \<Rightarrow> run \<Rightarrow> (error + run) option" where
  "interval_120_step username remote_id r = while_step (interval_120_body username remote_id) r"


subsection \<open>Steps 8.3.13 to 8.3.16: the two samples\<close>

text \<open>
  \<^verbatim>\<open>
  if dt.strptime(sample_air[4], '%d %b %Y').date() != dt.utcnow().date():
      response = input("Does this bother you, %s? [y]/n " % username.split()[0])
      if response != "n":
          response = input("Would you like to try again? [y]/n ")
          if response == "n":
              testdata[6] = ("The sample does not contain a valid "
                             "date stamp.\r\n%s" % ', '.join(sample_air))
          else: continue
      else:
          step_results_p[6] = True
          testdata[6] = "Correct date stamp confirmed."
  else:
      step_results_p[6] = True
      testdata[6] = "Correct date stamp confirmed."
  \<close>
  Each of the four checks returns True when the body goes on and False at \<open>continue\<close>
  (the last one: the flag \<open>this_step_complete\<close>).
\<close>

definition date_stamp_passed :: "run \<Rightarrow> run" where
  "date_stamp_passed r =
     r\<lparr>step_results_p := (step_results_p r)[6 := True],
       testdata := (testdata r)[6 := Some ''Correct date stamp confirmed.'']\<rparr>"

definition date_stamp_violation :: "string \<Rightarrow> string list \<Rightarrow> run \<Rightarrow> error + (bool \<times> run)" where
  "date_stamp_violation username sample_air r =
     (case ask_bother username r of
        Inl e \<Rightarrow> Inl e
      | Inr (response, r1) \<Rightarrow>
          if response \<noteq> ''n''
          then (case py_input r1 of
                  Inl e \<Rightarrow> Inl e
                | Inr (response2, r2) \<Rightarrow>
                    if response2 = ''n''
                    then Inr (True, r2\<lparr>testdata := (testdata r2)
                           [6 := Some (''The sample does not contain a valid date stamp.''
                                       @ [CR, LF] @ join '', '' sample_air)]\<rparr>)
                    else Inr (False, r2))
          else Inr (True, date_stamp_passed r1))"

definition date_stamp_check :: "string \<Rightarrow> string list \<Rightarrow> run \<Rightarrow> error + (bool \<times> run)" where
  "date_stamp_check username sample_air r =
     (case getitem sample_air 4 of
        Inl e \<Rightarrow> Inl e
      | Inr field \<Rightarrow>
     (case strptime_dbY field of
        Inl e \<Rightarrow> Inl e
      | Inr stamp \<Rightarrow>
          (let (now, r1) = utcnow r
           in if date_of stamp \<noteq> date_of now
              then date_stamp_violation username sample_air r1
              else Inr (True, date_stamp_passed r1))))"

text \<open>
  \<^verbatim>\<open>
  if (float(sample_air[1]) < 10 or    # Lower bound room temp
      float(sample_air[1]) > 30 or    # Upper bound room temp
      float(sample_air[2]) < -1 or    # Lower bound cond
      float(sample_air[2]) > 1 or     # Upper bound cond
      float(sample_air[3]) < -2 or    # Lower bound atm press
      float(sample_air[3]) > 2):      # Upper bound atm press
      response = input("Does this bother you, %s? [y]/n " % username.split()[0])
      if response != "n":
          response = input("Would you like to try again? [y]/n ")
          if response == "n":
              testdata[7] = ("The sample data are invalid.\r\n%s" % ', '.join(sample_air))
          else: continue
      else:
          step_results_p[7] = True
          testdata[7] = ("Sample values seem reasonable.\r\n%s" % ', '.join(sample_air))
  else:
      step_results_p[7] = True
      testdata[7] = ("Sample values seem reasonable.\r\n%s" % ', '.join(sample_air))
  \<close>
  \<open>or\<close> stops at the first comparison that holds, so a later field is converted only
  when the earlier ones are within their bounds.
\<close>

definition float_item :: "string list \<Rightarrow> nat \<Rightarrow> error + real" where
  "float_item xs i = (case getitem xs i of Inl e \<Rightarrow> Inl e | Inr s \<Rightarrow> py_float s)"

definition values_out_of_bounds :: "string list \<Rightarrow> error + bool" where
  "values_out_of_bounds sample_air =
     (case float_item sample_air 1 of
        Inl e \<Rightarrow> Inl e
      | Inr t \<Rightarrow>
          if t < 10 \<or> t > 30 then Inr True
          else (case float_item sample_air 2 of
                  Inl e \<Rightarrow> Inl e
                | Inr c \<Rightarrow>
                    if c < - 1 \<or> c > 1 then Inr True
                    else (case float_item sample_air 3 of
                            Inl e \<Rightarrow> Inl e
                          | Inr p \<Rightarrow> Inr (p < - 2 \<or> p > 2))))"

definition values_passed :: "string list \<Rightarrow> run \<Rightarrow> run" where
  "values_passed sample_air r =
     r\<lparr>step_results_p := (step_results_p r)[7 := True],
       testdata := (testdata r)
         [7 := Some (''Sample values seem reasonable.'' @ [CR, LF] @ join '', '' sample_air)]\<rparr>"

definition values_violation :: "string \<Rightarrow> string list \<Rightarrow> run \<Rightarrow> error + (bool \<times> run)" where
  "values_violation username sample_air r =
     (case ask_bother username r of
        Inl e \<Rightarrow> Inl e
      | Inr (response, r1) \<Rightarrow>
          if response \<noteq> ''n''
          then (case py_input r1 of
                  Inl e \<Rightarrow> Inl e
                | Inr (response2, r2) \<Rightarrow>
                    if response2 = ''n''
                    then Inr (True, r2\<lparr>testdata := (testdata r2)
                           [7 := Some (''The sample data are invalid.'' @ [CR, LF]
                                       @ join '', '' sample_air)]\<rparr>)
                    else Inr (False, r2))
          else Inr (True, values_passed sample_air r1))"

definition values_check :: "string \<Rightarrow> string list \<Rightarrow> run \<Rightarrow> error + (bool \<times> run)" where
  "values_check username sample_air r =
     (case values_out_of_bounds sample_air of
        Inl e \<Rightarrow> Inl e
      | Inr bad \<Rightarrow>
          if bad then values_violation username sample_air r
          else Inr (True, values_passed sample_air r))"

text \<open>
  \<^verbatim>\<open>
  if float(sample_bucket[3]) <= float(sample_air[3]):
      response = input("Does this bother you, %s? [y]/n " % username.split()[0])
      if response != "n":
          response = input("Would you like to try again? [y]/n ")
          if response == "n":
              testdata[8] = ("The pressure did not increase as expected.\r\n%s"
                             % ', '.join(sample_bucket))
          else:
              print("Remove the instrument from the water now.")
              input("Press ENTER to continue...")
              continue
      else:
          step_results_p[8] = True
          testdata[8] = "Pressure sensor correctly records changes."
  else:
      step_results_p[8] = True
      testdata[8] = "Pressure sensor correctly records changes."
  \<close>
\<close>

definition pressure_not_greater :: "string list \<Rightarrow> string list \<Rightarrow> error + bool" where
  "pressure_not_greater sample_bucket sample_air =
     (case float_item sample_bucket 3 of
        Inl e \<Rightarrow> Inl e
      | Inr pb \<Rightarrow>
     (case float_item sample_air 3 of
        Inl e \<Rightarrow> Inl e
      | Inr pa \<Rightarrow> Inr (pb \<le> pa)))"

definition pressure_passed :: "run \<Rightarrow> run" where
  "pressure_passed r =
     r\<lparr>step_results_p := (step_results_p r)[8 := True],
       testdata := (testdata r)[8 := Some ''Pressure sensor correctly records changes.'']\<rparr>"

definition pressure_violation :: "string \<Rightarrow> string list \<Rightarrow> run \<Rightarrow> error + (bool \<times> run)" where
  "pressure_violation username sample_bucket r =
     (case ask_bother username r of
        Inl e \<Rightarrow> Inl e
      | Inr (response, r1) \<Rightarrow>
          if response \<noteq> ''n''
          then (case py_input r1 of
                  Inl e \<Rightarrow> Inl e
                | Inr (response2, r2) \<Rightarrow>
                    if response2 = ''n''
                    then Inr (True, r2\<lparr>testdata := (testdata r2)
                           [8 := Some (''The pressure did not increase as expected.''
                                       @ [CR, LF] @ join '', '' sample_bucket)]\<rparr>)
                    else (case py_input r2 of
                            Inl e \<Rightarrow> Inl e
                          | Inr (enter, r3) \<Rightarrow> Inr (False, r3)))
          else Inr (True, pressure_passed r1))"

definition pressure_check ::
    "string \<Rightarrow> string list \<Rightarrow> string list \<Rightarrow> run \<Rightarrow> error + (bool \<times> run)" where
  "pressure_check username sample_bucket sample_air r =
     (case pressure_not_greater sample_bucket sample_air of
        Inl e \<Rightarrow> Inl e
      | Inr bad \<Rightarrow>
          if bad then pressure_violation username sample_bucket r
          else Inr (True, pressure_passed r))"

text \<open>
  \<^verbatim>\<open>
  if float(sample_bucket[1]) - float(sample_air[1]) < 1.0:
      response = input("Does this bother you, %s? [y]/n " % username.split()[0])
      if response != "n":
          response = input("Would you like to try again? [y]/n ")
          if response == "n":
              testdata[9] = ("The temperature did not increase as expected.\r\n%s"
                             % ', '.join(sample_bucket))
              this_step_complete = True
      else:
          step_results_p[9] = True
          testdata[9] = "Temp data changes as expected."
          this_step_complete = True
  else:
      step_results_p[9] = True
      testdata[9] = "Temp data changes as expected."
      this_step_complete = True
  \<close>
\<close>

definition temperature_rise_too_small :: "string list \<Rightarrow> string list \<Rightarrow> error + bool" where
  "temperature_rise_too_small sample_bucket sample_air =
     (case float_item sample_bucket 1 of
        Inl e \<Rightarrow> Inl e
      | Inr tb \<Rightarrow>
     (case float_item sample_air 1 of
        Inl e \<Rightarrow> Inl e
      | Inr ta \<Rightarrow> Inr (tb - ta < 1)))"

definition temperature_passed :: "run \<Rightarrow> run" where
  "temperature_passed r =
     r\<lparr>step_results_p := (step_results_p r)[9 := True],
       testdata := (testdata r)[9 := Some ''Temp data changes as expected.'']\<rparr>"

definition temperature_violation :: "string \<Rightarrow> string list \<Rightarrow> run \<Rightarrow> error + (bool \<times> run)" where
  "temperature_violation username sample_bucket r =
     (case ask_bother username r of
        Inl e \<Rightarrow> Inl e
      | Inr (response, r1) \<Rightarrow>
          if response \<noteq> ''n''
          then (case py_input r1 of
                  Inl e \<Rightarrow> Inl e
                | Inr (response2, r2) \<Rightarrow>
                    if response2 = ''n''
                    then Inr (True, r2\<lparr>testdata := (testdata r2)
                           [9 := Some (''The temperature did not increase as expected.''
                                       @ [CR, LF] @ join '', '' sample_bucket)]\<rparr>)
                    else Inr (False, r2))
          else Inr (True, temperature_passed r1))"

definition temperature_check ::
    "string \<Rightarrow> string list \<Rightarrow> string list \<Rightarrow> run \<Rightarrow> error + (bool \<times> run)" where
  "temperature_check username sample_bucket sample_air r =
     (case temperature_rise_too_small sample_bucket sample_air of
        Inl e \<Rightarrow> Inl e
      | Inr bad \<Rightarrow>
          if bad then temperature_violation username sample_bucket r
          else Inr (True, temperature_passed r))"

text \<open>
  The body of the loop of step 8.3.13:
  \<^verbatim>\<open>
  step_results_p[6:8] = [False] * 3
  testdata[6:8] = ["Test not completed."] * 3
  sample_air = split_csv(ser_coms(ser, capfile, '#%sts' % remote_id))
  ... date stamp, reasonable values ...
  input("Press ENTER to continue...")
  sample_bucket = split_csv(ser_coms(ser, capfile, '#%sts' % remote_id))
  ... pressure, temperature ...
  \<close>
\<close>

definition acquire :: "string \<Rightarrow> run \<Rightarrow> error + (string list \<times> run)" where
  "acquire remote_id r =
     (case coms r (''#'' @ remote_id @ ''ts'') of
        Inl e \<Rightarrow> Inl e
      | Inr (reply, r1) \<Rightarrow>
          (case split_csv reply of
             Inl e \<Rightarrow> Inl e
           | Inr sample \<Rightarrow> Inr (sample, r1)))"

definition bucket_checks ::
    "string \<Rightarrow> string \<Rightarrow> string list \<Rightarrow> run \<Rightarrow> error + (bool \<times> run)" where
  "bucket_checks username remote_id sample_air r =
     (case py_input r of
        Inl e \<Rightarrow> Inl e
      | Inr (enter, r1) \<Rightarrow>
     (case acquire remote_id r1 of
        Inl e \<Rightarrow> Inl e
      | Inr (sample_bucket, r2) \<Rightarrow>
     (case pressure_check username sample_bucket sample_air r2 of
        Inl e \<Rightarrow> Inl e
      | Inr (go_on, r3) \<Rightarrow>
          if go_on then temperature_check username sample_bucket sample_air r3
          else Inr (False, r3))))"

definition sample_body :: "string \<Rightarrow> string \<Rightarrow> run \<Rightarrow> error + (bool \<times> run)" where
  "sample_body username remote_id r =
     (let r1 = r\<lparr>step_results_p := slice_assign (step_results_p r) 6 8 (replicate 3 False)\<rparr>;
          r2 = r1\<lparr>testdata := slice_assign (testdata r1) 6 8
                                (replicate 3 (Some ''Test not completed.''))\<rparr>
      in case acquire remote_id r2 of
           Inl e \<Rightarrow> Inl e
         | Inr (sample_air, r3) \<Rightarrow>
        (case date_stamp_check username sample_air r3 of
           Inl e \<Rightarrow> Inl e
         | Inr (go_on, r4) \<Rightarrow>
             if \<not> go_on then Inr (False, r4)
             else (case values_check username sample_air r4 of
                     Inl e \<Rightarrow> Inl e
                   | Inr (go_on2, r5) \<Rightarrow>
                       if \<not> go_on2 then Inr (False, r5)
                       else bucket_checks username remote_id sample_air r5)))"

definition sample_step :: "string \<Rightarrow> string \<Rightarrow> run \<Rightarrow> (error + run) option" where
  "sample_step username remote_id r = while_step (sample_body username remote_id) r"

subsection \<open>The handshake\<close>







subsection \<open>The test procedure\<close>















subsection \<open>A bench for the examples\<close>

text \<open>
  A run as it stands when the steps begin: the port open with the 5 second timeout,
  the capture file open and empty, the first three slots filled. Its arguments are
  what the instrument is going to send and what the operator is going to type. The
  clock shows 4 November 2026, 09:30:00, and five seconds more at each reading.
\<close>

definition example_run :: "(nat \<times> char) list \<Rightarrow> string list \<Rightarrow> run" where
  "example_run schedule typed =
     \<lparr>port_available = True,
      serial = \<lparr>is_open = True, timeout = 5000, in_buffer = [], incoming = schedule,
                written = []\<rparr>,
      capture_file = \<lparr>file_closed = False, file_text = []\<rparr>,
      stdin = typed,
      clock = (\<lambda>k. \<lparr>year = 2026, month = 11, day = 4, hour = 9, minute = 30,
                      second = 5 * (k mod 12), microsecond = 0\<rparr>),
      ticks = 0,
      step_results_p = [True, True, True, False, False, False, False, False, False, False],
      testdata = [Some ''Established communication with instrument.'',
                  Some ''Serial number confirmed.'', Some ''Firmware 2.3b confirmed.'',
                  None, None, None, None, None, None, None],
      results_table = []\<rparr>"

text \<open>
  Replies of the instrument for the examples: the status reply to \<open>ds\<close> with a given
  clock reading and sample interval (serial number at word 5, clock at words 6 to 9,
  interval at word 29), and the reply to \<open>ts\<close> with a given temperature, conductivity
  and pressure, the data on the second line.
\<close>

definition example_status :: "string \<Rightarrow> string \<Rightarrow> string" where
  "example_status stamp interval =
     ''SBE37-IM V 2.3b SERIAL NO. 12345 '' @ stamp @ [CR, LF]
     @ ''vMain = 6.96, vLith = 3.06'' @ [CR, LF]
     @ ''samplenumber = 12, free = 559228'' @ [CR, LF]
     @ ''not logging, stop command'' @ [CR, LF]
     @ ''sample interval = '' @ interval @ '' seconds'' @ [CR, LF]"

definition example_sample :: "string \<Rightarrow> string \<Rightarrow> string \<Rightarrow> string" where
  "example_sample t c p =
     ''#01ts'' @ [CR, LF]
     @ '' 03712345,  '' @ t @ '', '' @ c @ '',   '' @ p @ '', 04 Nov 2026, 09:30:40'' @ [CR, LF]"

text \<open>Two runs whose result lists have the same lengths.\<close>

definition same_lengths :: "run \<Rightarrow> run \<Rightarrow> bool" where
  "same_lengths r r' \<longleftrightarrow> length (step_results_p r') = length (step_results_p r)
     \<and> length (testdata r') = length (testdata r)"



text \<open>
  A whole session of the instrument: the first reply after 0.1 seconds, every later
  one 5.1 seconds after the reply before it, so that each exchange ends in a
  timeout and finds its own reply. \<open>expecting w replies\<close> says that the port and the
  capture file are open and that these replies are what is still to come;
  \<open>after_exchange\<close> is the state an exchange leaves behind.
\<close>

definition script :: "string list \<Rightarrow> (nat \<times> char) list" where
  "script replies = concat (map (burst 5100) replies)"

definition expecting :: "'a world_scheme \<Rightarrow> string list \<Rightarrow> bool" where
  "expecting w replies \<longleftrightarrow>
     is_open (serial w) \<and> timeout (serial w) = 5000 \<and> \<not> file_closed (capture_file w)
     \<and> list_all (\<lambda>reply. reply \<noteq> [] \<and> list_all is_ascii reply) replies
     \<and> incoming (serial w) = (case replies of [] \<Rightarrow> [] | reply # rest \<Rightarrow> burst 100 reply @ script rest)"

definition after_exchange :: "'a world_scheme \<Rightarrow> string \<Rightarrow> string \<Rightarrow> string list \<Rightarrow> 'a world_scheme" where
  "after_exchange w cmd reply rest =
     w\<lparr>serial := (serial w)\<lparr>in_buffer := [],
            incoming := (case rest of [] \<Rightarrow> [] | next_reply # later \<Rightarrow> burst 100 next_reply @ script later),
            written := written (serial w) @ cmd @ [CR, LF]\<rparr>,
       capture_file := (capture_file w)\<lparr>file_text := file_text (capture_file w) @ reply\<rparr>\<rparr>"

declare while_step.simps [code]



section \<open>Properties of the string functions\<close>

lemma splitlines_from_nobreak:
  "list_all (\<lambda>c. \<not> is_linebreak c) l \<Longrightarrow>
   splitlines_from cur (l @ rest) = splitlines_from (cur @ l) rest"
  by (induction l arbitrary: cur) auto

lemma splitlines_from_crlf:
  "splitlines_from cur (CR # LF # rest) = cur # splitlines_from [] rest"
  by (simp add: is_linebreak_def CR_def LF_def)

lemma splitlines_line_crlf:
  assumes "list_all (\<lambda>c. \<not> is_linebreak c) l"
  shows "splitlines (l @ CR # LF # rest) = l # splitlines rest"
proof -
  have "splitlines_from [] (l @ CR # LF # rest) = splitlines_from ([] @ l) (CR # LF # rest)"
    using assms by (rule splitlines_from_nobreak)
  then show ?thesis by (simp only: splitlines_def append_Nil splitlines_from_crlf)
qed

lemma splitlines_line_end:
  assumes "list_all (\<lambda>c. \<not> is_linebreak c) l"
  shows "splitlines l = (if l = [] then [] else [l])"
  using splitlines_from_nobreak [OF assms, of "[]" "[]"] by (simp add: splitlines_def)

lemma strip_no_outer_space:
  assumes ne: "strip s \<noteq> []"
  shows "\<not> is_space (hd (strip s)) \<and> \<not> is_space (last (strip s))"
proof -
  define ys where "ys = dropWhile is_space s"
  define zs where "zs = dropWhile is_space (rev ys)"
  have s: "strip s = rev zs" by (simp add: strip_def ys_def zs_def)
  with ne have zne: "zs \<noteq> []" by simp
  then have l: "\<not> is_space (hd zs)" unfolding zs_def by (rule hd_dropWhile)
  have "rev ys = takeWhile is_space (rev ys) @ zs" by (simp add: zs_def)
  then have "ys = rev zs @ rev (takeWhile is_space (rev ys))"
    by (metis rev_append rev_rev_ident)
  then have "hd ys = hd (rev zs)" using zne by (metis hd_append2 rev_is_Nil_conv)
  moreover have "ys \<noteq> []" using zne zs_def by auto
  then have "\<not> is_space (hd ys)" unfolding ys_def by (rule hd_dropWhile)
  ultimately show ?thesis using l zne s by (simp add: last_rev)
qed

section \<open>Sample parsing\<close>

text \<open>
  Claim C6. \<open>split_csv\<close> returns the comma-separated fields of exactly the second line
  of the response, each stripped of surrounding whitespace, and raises IndexError
  when the response has fewer than two lines. In particular a response without any
  line break, or with its only line break at the very end, is refused, and in a
  response that starts with two lines ended by \<open>\r\n\<close> the fields are those of the
  second of them, whatever follows.
\<close>

theorem split_csv_second_line:
  assumes "list_all (\<lambda>c. \<not> is_linebreak c) l0" and "list_all (\<lambda>c. \<not> is_linebreak c) l1"
  shows "split_csv csv =
           (case splitlines csv of
              a # b # others \<Rightarrow> Inr (map strip (split_on (CHR '','') b))
            | _ \<Rightarrow> Inl IndexError)
         \<and> split_csv l0 = Inl IndexError
         \<and> split_csv (l0 @ [CR, LF]) = Inl IndexError
         \<and> split_csv (l0 @ [CR, LF] @ l1 @ [CR, LF] @ rest)
             = Inr (map strip (split_on (CHR '','') l1))
         \<and> list_all (\<lambda>f. f = [] \<or> (\<not> is_space (hd f) \<and> \<not> is_space (last f)))
             (map strip (split_on (CHR '','') l1))"
proof -
  have general: "split_csv csv =
           (case splitlines csv of
              a # b # others \<Rightarrow> Inr (map strip (split_on (CHR '','') b))
            | _ \<Rightarrow> Inl IndexError)"
    by (simp add: split_csv_def getitem_def split: list.splits)
  have one: "split_csv l0 = Inl IndexError"
    using splitlines_line_end [OF assms(1)] by (simp add: split_csv_def getitem_def)
  have "splitlines (l0 @ [CR, LF]) = [l0]"
    using splitlines_line_crlf [OF assms(1), of "[]"] splitlines_line_end [of "[]"] by simp
  then have ended: "split_csv (l0 @ [CR, LF]) = Inl IndexError"
    by (simp add: split_csv_def getitem_def)
  have "splitlines (l0 @ [CR, LF] @ l1 @ [CR, LF] @ rest) = l0 # l1 # splitlines rest"
    using splitlines_line_crlf [OF assms(1), of "l1 @ [CR, LF] @ rest"]
      splitlines_line_crlf [OF assms(2), of rest] by simp
  then have two: "split_csv (l0 @ [CR, LF] @ l1 @ [CR, LF] @ rest)
             = Inr (map strip (split_on (CHR '','') l1))"
    by (simp add: split_csv_def getitem_def)
  have trimmed: "list_all (\<lambda>f. f = [] \<or> (\<not> is_space (hd f) \<and> \<not> is_space (last f)))
             (map strip (split_on (CHR '','') l1))"
    using strip_no_outer_space by (auto simp: list_all_iff)
  from general one ended two trimmed show ?thesis by blast
qed

theorem split_csv_second_line_witness:
  "split_csv ''#01ts'' = Inl IndexError
   \<and> split_csv (''#01ts'' @ [CR, LF]) = Inl IndexError
   \<and> split_csv (''#01ts'' @ [CR, LF] @ '' 03712345,  20.1234, 0.00001,   0.012, 22 Jun 2020, 12:00:05''
                 @ [CR, LF] @ ''<Executed/>'')
       = Inr [''03712345'', ''20.1234'', ''0.00001'', ''0.012'', ''22 Jun 2020'', ''12:00:05'']"
proof -
  have a: "list_all (\<lambda>c. \<not> is_linebreak c) ''#01ts''"
    by (simp add: is_linebreak_def)
  have b: "list_all (\<lambda>c. \<not> is_linebreak c)
      '' 03712345,  20.1234, 0.00001,   0.012, 22 Jun 2020, 12:00:05''"
    by (simp add: is_linebreak_def)
  have c: "map strip (split_on (CHR '','')
      '' 03712345,  20.1234, 0.00001,   0.012, 22 Jun 2020, 12:00:05'')
      = [''03712345'', ''20.1234'', ''0.00001'', ''0.012'', ''22 Jun 2020'', ''12:00:05'']"
    by (simp add: strip_def is_space_def)
  from split_csv_second_line [OF a b, of "[]" "''<Executed/>''"] c show ?thesis
    by simp
qed

section \<open>The transport channel\<close>

lemma ser_coms_loop_effect:
  "ser_coms_loop ser capfile cap = Inr (resp, ser', capfile') \<Longrightarrow>
   file_text capfile' = file_text capfile @ resp \<and> file_closed capfile' = file_closed capfile
   \<and> written ser' = written ser \<and> is_open ser' = is_open ser \<and> timeout ser' = timeout ser
   \<and> prefix cap resp"
proof (induction ser capfile cap rule: ser_coms_loop.induct)
  case (1 ser capfile cap)
  from "1.prems" obtain bs ser1 where r: "ser_read ser 1 = Inr (bs, ser1)"
    by (subst (asm) ser_coms_loop.simps) (auto split: sum.splits)
  from "1.prems" r obtain s where d: "decode_ascii bs = Inr s"
    by (subst (asm) ser_coms_loop.simps) (auto split: sum.splits)
  from r have same: "written ser1 = written ser" "is_open ser1 = is_open ser"
      "timeout ser1 = timeout ser"
    by (auto simp: ser_read_def split: if_splits prod.splits)
  show ?case
  proof (cases "cap = cap @ s")
    case True
    with "1.prems" r d show ?thesis using same
      by (subst (asm) ser_coms_loop.simps) (auto simp: file_write_def split: sum.splits if_splits)
  next
    case False
    with "1.prems" r d have "ser_coms_loop ser1 capfile (cap @ s) = Inr (resp, ser', capfile')"
      by (subst (asm) ser_coms_loop.simps) simp
    from "1.IH" [OF r refl d False this] same show ?thesis
      by (auto dest: append_prefixD)
  qed
qed

lemma ser_coms_effect:
  assumes "ser_coms ser capfile cmd = Inr (resp, ser', capfile')"
  shows "file_text capfile' = file_text capfile @ resp
     \<and> written ser' = written ser @ cmd @ [CR, LF]
     \<and> file_closed capfile' = file_closed capfile
     \<and> is_open ser' = is_open ser \<and> timeout ser' = timeout ser"
proof -
  from assms obtain ser1 where s1: "reset_input_buffer ser = Inr ser1"
    by (auto simp: ser_coms_def split: sum.splits)
  from assms s1 obtain bytes where b: "encode_ascii (cmd @ [CR, LF]) = Inr bytes"
    by (auto simp: ser_coms_def split: sum.splits)
  from assms s1 b obtain ser2 where s2: "ser_write ser1 bytes = Inr ser2"
    by (auto simp: ser_coms_def split: sum.splits)
  from assms s1 b s2 obtain n ser3 where s3: "in_waiting ser2 = Inr (n, ser3)"
    by (auto simp: ser_coms_def split: sum.splits)
  from assms s1 b s2 s3 obtain bs ser4 where s4: "ser_read ser3 n = Inr (bs, ser4)"
    by (auto simp: ser_coms_def split: sum.splits)
  from assms s1 b s2 s3 s4 obtain cap where c: "decode_ascii bs = Inr cap"
    by (auto simp: ser_coms_def split: sum.splits)
  from assms s1 b s2 s3 s4 c have l: "ser_coms_loop ser4 capfile cap = Inr (resp, ser', capfile')"
    by (simp add: ser_coms_def)
  from s1 have 1: "written ser1 = written ser" "is_open ser1 = is_open ser"
      "timeout ser1 = timeout ser"
    by (auto simp: reset_input_buffer_def split: if_splits)
  from b have 2: "bytes = cmd @ [CR, LF]" by (auto simp: encode_ascii_def split: if_splits)
  from s2 have 3: "written ser2 = written ser1 @ bytes" "is_open ser2 = is_open ser1"
      "timeout ser2 = timeout ser1"
    by (auto simp: ser_write_def split: if_splits)
  from s3 have 4: "written ser3 = written ser2" "is_open ser3 = is_open ser2"
      "timeout ser3 = timeout ser2"
    by (auto simp: in_waiting_def split: if_splits prod.splits)
  from s4 have 5: "written ser4 = written ser3" "is_open ser4 = is_open ser3"
      "timeout ser4 = timeout ser3"
    by (auto simp: ser_read_def split: if_splits prod.splits)
  from ser_coms_loop_effect [OF l] 1 2 3 4 5 show ?thesis by simp
qed

lemma read_upto_buffer: "read_upto (length buf) t buf inc = (buf, [], inc)"
  by (induction buf) auto

lemma arrive_reply:
  assumes "0 < t" "late = [] \<or> t \<le> fst (hd late)"
  shows "\<exists>z r. reply = z @ r \<and> arrive buf (reply @ late) = (buf @ map snd z, r @ late)"
proof (induction reply arbitrary: buf)
  case Nil
  from assms show ?case by (cases late) auto
next
  case (Cons a reply)
  obtain d c where a: "a = (d, c)" by (cases a)
  show ?case
  proof (cases "d = 0")
    case True
    from Cons [of "buf @ [c]"] obtain z r where
      "reply = z @ r" "arrive (buf @ [c]) (reply @ late) = ((buf @ [c]) @ map snd z, r @ late)"
      by blast
    then have "a # reply = (a # z) @ r
        \<and> arrive buf ((a # reply) @ late) = (buf @ map snd (a # z), r @ late)"
      using a True by simp
    then show ?thesis by blast
  next
    case False
    then have "a # reply = [] @ (a # reply)
        \<and> arrive buf ((a # reply) @ late) = (buf @ map snd [], (a # reply) @ late)"
      using a by simp
    then show ?thesis by blast
  qed
qed

lemma ser_coms_loop_reply:
  assumes "is_open ser" "\<not> file_closed capfile" "list_all (\<lambda>(d, c). d < timeout ser) r"
    "late = [] \<or> timeout ser \<le> fst (hd late)" "list_all is_ascii (map snd r)"
    "in_buffer ser = []" "incoming ser = r @ late"
  shows "ser_coms_loop ser capfile cap =
     Inr (cap @ map snd r,
          ser\<lparr>in_buffer := [], incoming := after_timeout (timeout ser) late\<rparr>,
          capfile\<lparr>file_text := file_text capfile @ cap @ map snd r\<rparr>)"
  using assms
proof (induction r arbitrary: ser cap)
  case Nil
  then have "ser_read ser 1 =
      Inr ([], ser\<lparr>in_buffer := [], incoming := after_timeout (timeout ser) late\<rparr>)"
    by (cases late) (auto simp: ser_read_def after_timeout_def)
  then show ?case using Nil
    by (subst ser_coms_loop.simps) (simp add: decode_ascii_def file_write_def)
next
  case (Cons a r)
  obtain d c where a: "a = (d, c)" by (cases a)
  let ?ser = "ser\<lparr>in_buffer := [], incoming := r @ late\<rparr>"
  from Cons.prems a have rd: "ser_read ser 1 = Inr ([c], ?ser)"
    by (auto simp: ser_read_def)
  from Cons.prems a have dc: "decode_ascii [c] = Inr [c]" by (simp add: decode_ascii_def)
  have "ser_coms_loop ?ser capfile (cap @ [c]) =
     Inr ((cap @ [c]) @ map snd r,
          ?ser\<lparr>in_buffer := [], incoming := after_timeout (timeout ?ser) late\<rparr>,
          capfile\<lparr>file_text := file_text capfile @ (cap @ [c]) @ map snd r\<rparr>)"
    using Cons.prems a by (intro Cons.IH) auto
  then show ?case using rd dc a
    by (subst ser_coms_loop.simps) simp
qed

lemma ser_coms_reply:
  assumes "is_open ser" "\<not> file_closed capfile" "0 < timeout ser"
    "list_all is_ascii cmd" "list_all is_ascii (map snd reply)"
    "list_all (\<lambda>(d, c). d < timeout ser) reply"
    "late = [] \<or> timeout ser \<le> fst (hd late)"
    "incoming ser = reply @ late"
  shows "ser_coms ser capfile cmd =
     Inr (map snd reply,
          ser\<lparr>in_buffer := [], incoming := after_timeout (timeout ser) late,
              written := written ser @ cmd @ [CR, LF]\<rparr>,
          capfile\<lparr>file_text := file_text capfile @ map snd reply\<rparr>)"
proof -
  let ?ser2 = "ser\<lparr>in_buffer := [], written := written ser @ cmd @ [CR, LF]\<rparr>"
  from arrive_reply [OF assms(3) assms(7), of reply "[]"] obtain z r where
    zr: "reply = z @ r" "arrive [] (reply @ late) = (map snd z, r @ late)" by auto
  let ?ser3 = "?ser2\<lparr>in_buffer := map snd z, incoming := r @ late\<rparr>"
  let ?ser4 = "?ser3\<lparr>in_buffer := [], incoming := r @ late\<rparr>"
  have e: "encode_ascii (cmd @ [CR, LF]) = Inr (cmd @ [CR, LF])"
    using assms(4) by (simp add: encode_ascii_def is_ascii_def CR_def LF_def)
  have w: "in_waiting ?ser2 = Inr (length (map snd z), ?ser3)"
    using assms(1,8) zr by (simp add: in_waiting_def)
  have rd: "ser_read ?ser3 (length (map snd z)) = Inr (map snd z, ?ser4)"
    using assms(1) by (simp add: ser_read_def read_upto_buffer del: length_map)
  have dz: "decode_ascii (map snd z) = Inr (map snd z)"
    using assms(5) zr by (simp add: decode_ascii_def)
  have "ser_coms_loop ?ser4 capfile (map snd z) =
     Inr (map snd z @ map snd r,
          ?ser4\<lparr>in_buffer := [], incoming := after_timeout (timeout ?ser4) late\<rparr>,
          capfile\<lparr>file_text := file_text capfile @ map snd z @ map snd r\<rparr>)"
    using assms zr by (intro ser_coms_loop_reply) auto
  then show ?thesis using assms(1) e w rd dz zr
    by (simp add: ser_coms_def reset_input_buffer_def ser_write_def del: length_map)
qed

lemmas ser_coms_eval =
  ser_coms_def reset_input_buffer_def encode_ascii_def is_ascii_def CR_def LF_def
  ser_write_def in_waiting_def ser_read_def decode_ascii_def file_write_def

text \<open>
  Claim C2, as the code has it. An exchange that returns appends the raw response, and
  nothing else, to the capture file; the command goes to the serial port only. The
  transcript shows a command only where the instrument echoes it.
\<close>

theorem ser_coms_transcript:
  assumes "ser_coms ser capfile cmd = Inr (resp, ser', capfile')"
  shows "file_text capfile' = file_text capfile @ resp
         \<and> written ser' = written ser @ cmd @ [CR, LF]"
proof -
  from ser_coms_effect [OF assms] show ?thesis by blast
qed

theorem ser_coms_transcript_witness:
  "ser_coms \<lparr>is_open = True, timeout = 5000, in_buffer = ''junk'',
             incoming = [(0, CHR ''O''), (20, CHR ''K''), (6000, CHR ''x'')], written = []\<rparr>
            \<lparr>file_closed = False, file_text = ''log:''\<rparr> ''pwron''
     = Inr (''OK'',
            \<lparr>is_open = True, timeout = 5000, in_buffer = [],
             incoming = [(1000, CHR ''x'')], written = ''pwron'' @ [CR, LF]\<rparr>,
            \<lparr>file_closed = False, file_text = ''log:OK''\<rparr>)
   \<and> file_text \<lparr>file_closed = False, file_text = ''log:OK''\<rparr> = ''log:'' @ ''OK''"
proof -
  have run: "ser_coms \<lparr>is_open = True, timeout = 5000, in_buffer = ''junk'',
             incoming = [(0, CHR ''O''), (20, CHR ''K''), (6000, CHR ''x'')], written = []\<rparr>
            \<lparr>file_closed = False, file_text = ''log:''\<rparr> ''pwron''
     = Inr (''OK'',
            \<lparr>is_open = True, timeout = 5000, in_buffer = [],
             incoming = [(1000, CHR ''x'')], written = ''pwron'' @ [CR, LF]\<rparr>,
            \<lparr>file_closed = False, file_text = ''log:OK''\<rparr>)"
    by (simp add: ser_coms_eval)
  from ser_coms_transcript [OF run] run show ?thesis by simp
qed

text \<open>
  Claim C2 as stated fails: the instrument answers \<open>pwron\<close> with \<open>OK\<close> and does not
  echo; the exchange returns and the capture file holds \<open>OK\<close> only, without the
  command.
\<close>

theorem ser_coms_transcript_counterexample:
  "ser_coms \<lparr>is_open = True, timeout = 5000, in_buffer = [],
             incoming = [(0, CHR ''O''), (20, CHR ''K'')], written = []\<rparr>
            \<lparr>file_closed = False, file_text = []\<rparr> ''pwron''
     = Inr (''OK'',
            \<lparr>is_open = True, timeout = 5000, in_buffer = [],
             incoming = [], written = ''pwron'' @ [CR, LF]\<rparr>,
            \<lparr>file_closed = False, file_text = ''OK''\<rparr>)
   \<and> \<not> contains (file_text \<lparr>file_closed = False, file_text = ''OK''\<rparr>) ''pwron''
   \<and> \<not> sublist ''pwron'' (file_text \<lparr>file_closed = False, file_text = ''OK''\<rparr>)"
  by (simp add: ser_coms_eval sublist_code)




section \<open>The clock checks\<close>

lemma seconds_datetime_sub:
  "seconds (datetime_sub a b) = ((to_micro a - to_micro b) div 1000000) mod 86400"
  by (simp add: datetime_sub_def timedelta_new_def to_micro_def Let_def algebra_simps)

lemma clock_ok_iff:
  "clock_ok a b \<longleftrightarrow> ((to_micro a - to_micro b) div 1000000) mod 86400 \<le> 15"
  by (simp add: clock_ok_def seconds_datetime_sub)

lemma clock_ok_band:
  assumes "to_micro a - to_micro b = (k * 86400 + s) * 1000000 + u"
    "0 \<le> s" "s < 86400" "0 \<le> u" "u < 1000000"
  shows "clock_ok a b \<longleftrightarrow> s \<le> 15"
proof -
  have "((k * 86400 + s) * 1000000 + u) div 1000000 = k * 86400 + s"
    using assms(4,5) by simp
  moreover have "(k * 86400 + s) mod 86400 = s"
    using assms(2,3) by simp
  ultimately show ?thesis using assms(1) by (simp add: clock_ok_iff)
qed

lemma clock_ok_negative:
  assumes "to_micro a - to_micro b = - d" "1000000 \<le> d" "d \<le> 86384000000"
  shows "\<not> clock_ok a b"
proof -
  define q where "q = (- d) div 1000000"
  have "- 86384 \<le> q" "q \<le> - 1" using assms(2,3) unfolding q_def by linarith+
  then have "q mod 86400 = q + 86400"
    by (smt (verit) mod_pos_pos_trivial mod_add_self2)
  with \<open>- 86384 \<le> q\<close> show ?thesis using assms(1) by (simp add: clock_ok_iff q_def)
qed

lemmas calendar_eval =
  to_micro_def toordinal_def days_before_year_def days_before_month_def is_leap_def



text \<open>
  Claim C10, as the code has it. Both checks look at the \<open>seconds\<close> field of the
  difference only, which is the whole seconds of the difference modulo one day, so
  the sign and the whole days are lost. The reset check takes current time minus
  instrument time: an instrument ahead of the current time by 1 to 86384 seconds is
  a violation, one behind it by whole days plus 0 to 15 seconds is within tolerance.
  The set check takes instrument time minus target, so there the roles are the other
  way round: an instrument ahead of the target by whole days plus 0 to 15 seconds is
  within tolerance, one behind it by 1 to 86384 seconds is a violation.
\<close>

theorem clock_seconds_only:
  "clock_ok a b = ((to_micro a - to_micro b) div 1000000 mod 86400 \<le> 15)
   \<and> (to_micro now - to_micro currenttime_instr = - ahead \<and> 1000000 \<le> ahead
        \<and> ahead \<le> 86384000000
      \<longrightarrow> clock_reset_decision username now currenttime_instr r = clock_reset_violation username r)
   \<and> (to_micro now - to_micro currenttime_instr = (k * 86400 + s) * 1000000
        \<and> 0 \<le> s \<and> s \<le> 15
      \<longrightarrow> clock_reset_decision username now currenttime_instr r = Inr (True, clock_passed r))
   \<and> (to_micro rollback_instr - to_micro rollback_target = (k * 86400 + s) * 1000000
        \<and> 0 \<le> s \<and> s \<le> 15
      \<longrightarrow> clock_set_decision username rollback_instr rollback_target r = Inr (True, r))
   \<and> (to_micro rollback_instr - to_micro rollback_target = - behind \<and> 1000000 \<le> behind
        \<and> behind \<le> 86384000000
      \<longrightarrow> clock_set_decision username rollback_instr rollback_target r
            = clock_set_violation username r)"
proof -
  have days: "\<And>a b. to_micro a - to_micro b = (k * 86400 + s) * 1000000 \<Longrightarrow> 0 \<le> s
      \<Longrightarrow> s \<le> 15 \<Longrightarrow> clock_ok a b"
    using clock_ok_band [of _ _ k s 0] by simp
  show ?thesis
    using days [of now currenttime_instr] days [of rollback_instr rollback_target]
      clock_ok_negative [of now currenttime_instr ahead]
      clock_ok_negative [of rollback_instr rollback_target behind]
    by (auto simp: clock_ok_iff clock_set_decision_def clock_reset_decision_def)
qed

theorem clock_seconds_only_witness:
  "clock_reset_decision ''Ann Lee''
      \<lparr>year = 2026, month = 11, day = 4, hour = 9, minute = 30, second = 10, microsecond = 0\<rparr>
      \<lparr>year = 2026, month = 11, day = 4, hour = 9, minute = 30, second = 15, microsecond = 0\<rparr>
      (example_run [] [''n'']) = clock_reset_violation ''Ann Lee'' (example_run [] [''n''])
   \<and> clock_reset_decision ''Ann Lee''
      \<lparr>year = 2026, month = 11, day = 4, hour = 9, minute = 30, second = 10, microsecond = 0\<rparr>
      \<lparr>year = 2026, month = 11, day = 2, hour = 9, minute = 30, second = 3, microsecond = 0\<rparr>
      (example_run [] [''n'']) = Inr (True, clock_passed (example_run [] [''n'']))
   \<and> clock_set_decision ''Ann Lee''
      \<lparr>year = 2026, month = 11, day = 5, hour = 12, minute = 0, second = 7, microsecond = 0\<rparr>
      \<lparr>year = 2026, month = 11, day = 3, hour = 12, minute = 0, second = 0, microsecond = 0\<rparr>
      (example_run [] [''n'']) = Inr (True, example_run [] [''n''])
   \<and> clock_set_decision ''Ann Lee''
      \<lparr>year = 2026, month = 11, day = 3, hour = 11, minute = 59, second = 55, microsecond = 0\<rparr>
      \<lparr>year = 2026, month = 11, day = 3, hour = 12, minute = 0, second = 0, microsecond = 0\<rparr>
      (example_run [] [''n'']) = clock_set_violation ''Ann Lee'' (example_run [] [''n''])"
  using
    clock_seconds_only [of
      "\<lparr>year = 2026, month = 11, day = 4, hour = 9, minute = 30, second = 10, microsecond = 0\<rparr>"
      "\<lparr>year = 2026, month = 11, day = 4, hour = 9, minute = 30, second = 15, microsecond = 0\<rparr>"
      "\<lparr>year = 2026, month = 11, day = 4, hour = 9, minute = 30, second = 10, microsecond = 0\<rparr>"
      "\<lparr>year = 2026, month = 11, day = 4, hour = 9, minute = 30, second = 15, microsecond = 0\<rparr>"
      5000000 "''Ann Lee''" "example_run [] [''n'']" 0 0
      "\<lparr>year = 2026, month = 11, day = 3, hour = 11, minute = 59, second = 55, microsecond = 0\<rparr>"
      "\<lparr>year = 2026, month = 11, day = 3, hour = 12, minute = 0, second = 0, microsecond = 0\<rparr>"
      5000000]
    clock_seconds_only [of
      "\<lparr>year = 2026, month = 11, day = 4, hour = 9, minute = 30, second = 10, microsecond = 0\<rparr>"
      "\<lparr>year = 2026, month = 11, day = 4, hour = 9, minute = 30, second = 15, microsecond = 0\<rparr>"
      "\<lparr>year = 2026, month = 11, day = 4, hour = 9, minute = 30, second = 10, microsecond = 0\<rparr>"
      "\<lparr>year = 2026, month = 11, day = 2, hour = 9, minute = 30, second = 3, microsecond = 0\<rparr>"
      0 "''Ann Lee''" "example_run [] [''n'']" 2 7
      "\<lparr>year = 2026, month = 11, day = 5, hour = 12, minute = 0, second = 7, microsecond = 0\<rparr>"
      "\<lparr>year = 2026, month = 11, day = 3, hour = 12, minute = 0, second = 0, microsecond = 0\<rparr>"
      0]
  by (simp add: calendar_eval)

text \<open>
  Claim C10 as stated fails for the clock set check. An instrument that reads five
  seconds ahead of the target is within tolerance there (no question is put to the
  operator), and an instrument one day and five seconds behind the target is not:
  with nothing typed, the question to the operator ends in EOFError.
\<close>

theorem clock_seconds_only_counterexample:
  "to_micro \<lparr>year = 2026, month = 11, day = 3, hour = 12, minute = 0, second = 5, microsecond = 0\<rparr>
     - to_micro \<lparr>year = 2026, month = 11, day = 3, hour = 12, minute = 0, second = 0, microsecond = 0\<rparr>
     = 5 * 1000000
   \<and> clock_set_decision ''Ann Lee''
      \<lparr>year = 2026, month = 11, day = 3, hour = 12, minute = 0, second = 5, microsecond = 0\<rparr>
      \<lparr>year = 2026, month = 11, day = 3, hour = 12, minute = 0, second = 0, microsecond = 0\<rparr>
      (example_run [] []) = Inr (True, example_run [] [])
   \<and> to_micro \<lparr>year = 2026, month = 11, day = 3, hour = 12, minute = 0, second = 0, microsecond = 0\<rparr>
     - to_micro \<lparr>year = 2026, month = 11, day = 2, hour = 11, minute = 59, second = 55, microsecond = 0\<rparr>
     = (1 * 86400 + 5) * 1000000
   \<and> clock_set_decision ''Ann Lee''
      \<lparr>year = 2026, month = 11, day = 2, hour = 11, minute = 59, second = 55, microsecond = 0\<rparr>
      \<lparr>year = 2026, month = 11, day = 3, hour = 12, minute = 0, second = 0, microsecond = 0\<rparr>
      (example_run [] []) = Inl EOFError"
  by (simp add: calendar_eval clock_set_decision_def clock_ok_def datetime_sub_def
      timedelta_new_def clock_set_violation_def ask_bother_def getitem_def split_ws_def
      is_space_def py_input_def example_run_def)

section \<open>Helpers for the runner and for the examples\<close>

lemma while_step_done:
  "body s = Inr (True, s') \<Longrightarrow> while_step body s = Some (Inr s')"
  by (subst while_step.simps) simp

lemma while_step_again:
  "body s = Inr (False, s') \<Longrightarrow> while_step body s = while_step body s'"
  by (subst while_step.simps) simp

lemma while_step_error:
  "body s = Inl e \<Longrightarrow> while_step body s = Some (Inl e)"
  by (subst while_step.simps) simp

lemma map_snd_burst: "map snd (burst d s) = s"
  by (cases s) (simp_all add: burst_def comp_def)

lemma burst_in_time: "d < t \<Longrightarrow> list_all (\<lambda>(d, c). d < t) (burst d s)"
  by (cases s) (auto simp: burst_def list_all_iff)

lemma after_timeout_burst:
  "s \<noteq> [] \<Longrightarrow> after_timeout t (burst d s @ rest) = burst (d - t) s @ rest"
  by (cases s) (simp_all add: burst_def after_timeout_def)

lemma after_timeout_burst0:
  "s \<noteq> [] \<Longrightarrow> after_timeout t (burst d s) = burst (d - t) s"
  using after_timeout_burst [of s t d "[]"] by simp

lemma burst_late:
  "s \<noteq> [] \<Longrightarrow> t \<le> d \<Longrightarrow> burst d s @ rest = [] \<or> t \<le> fst (hd (burst d s @ rest))"
  by (cases s) (simp_all add: burst_def)

lemma coms_burst:
  assumes "is_open (serial w)" "\<not> file_closed (capture_file w)" "d < timeout (serial w)"
    "list_all is_ascii cmd" "list_all is_ascii reply"
    "incoming (serial w) = burst d reply @ late"
    "late = [] \<or> timeout (serial w) \<le> fst (hd late)"
  shows "coms w cmd =
     Inr (reply,
          w\<lparr>serial := (serial w)\<lparr>in_buffer := [],
                incoming := after_timeout (timeout (serial w)) late,
                written := written (serial w) @ cmd @ [CR, LF]\<rparr>,
            capture_file := (capture_file w)\<lparr>file_text := file_text (capture_file w) @ reply\<rparr>\<rparr>)"
proof -
  have "ser_coms (serial w) (capture_file w) cmd =
     Inr (map snd (burst d reply),
          (serial w)\<lparr>in_buffer := [], incoming := after_timeout (timeout (serial w)) late,
              written := written (serial w) @ cmd @ [CR, LF]\<rparr>,
          (capture_file w)\<lparr>file_text := file_text (capture_file w) @ map snd (burst d reply)\<rparr>)"
    using assms by (intro ser_coms_reply) (auto simp: map_snd_burst burst_in_time)
  then show ?thesis by (simp add: coms_def map_snd_burst)
qed

lemma example_run_fields:
  "serial (example_run schedule typed)
     = \<lparr>is_open = True, timeout = 5000, in_buffer = [], incoming = schedule, written = []\<rparr>"
  "capture_file (example_run schedule typed) = \<lparr>file_closed = False, file_text = []\<rparr>"
  "stdin (example_run schedule typed) = typed"
  "ticks (example_run schedule typed) = 0"
  "step_results_p (example_run schedule typed)
     = [True, True, True, False, False, False, False, False, False, False]"
  "testdata (example_run schedule typed)
     = [Some ''Established communication with instrument.'',
        Some ''Serial number confirmed.'', Some ''Firmware 2.3b confirmed.'',
        None, None, None, None, None, None, None]"
  by (simp_all add: example_run_def)

lemma example_status_words:
  "split_ws (example_status ''04 Nov 2026 09:30:07'' interval) =
     [''SBE37-IM'', ''V'', ''2.3b'', ''SERIAL'', ''NO.'', ''12345'', ''04'', ''Nov'', ''2026'',
      ''09:30:07'', ''vMain'', ''='', ''6.96,'', ''vLith'', ''='', ''3.06'', ''samplenumber'', ''='',
      ''12,'', ''free'', ''='', ''559228'', ''not'', ''logging,'', ''stop'', ''command'',
      ''sample'', ''interval'', ''=''] @ split_ws (interval @ '' seconds'' @ [CR, LF])"
  by (simp add: example_status_def split_ws_def is_space_def CR_def LF_def)

section \<open>The sample interval check\<close>

text \<open>
  Claim C5. Step 8.3.11 sets the interval \<open>"120"\<close> and compares it, as a string, with
  word 29 of the status reply. When that word is \<open>120\<close> the step is marked passed
  and the loop ends without a question to the operator; any other word, \<open>119\<close> among
  them, hands over to the questions put to the operator.
\<close>

theorem interval_exact_match:
  assumes "coms (r\<lparr>testdata := (testdata r)[4 := Some ''Test not completed.'']\<rparr>)
             (''#'' @ remote_id @ ''sampleinterval=120'') = Inr (reply, r2)"
    and "coms r2 (''#'' @ remote_id @ ''ds'') = Inr (ds_reply, r3)"
    and "getitem (split_ws ds_reply) 29 = Inr reported"
  shows "interval_120_body username remote_id r
           = (if reported = ''120''
              then Inr (True, interval_passed 4 (split_ws ds_reply) r3)
              else interval_violation 4 username (split_ws ds_reply) r3)
       \<and> (reported = ''120'' \<longrightarrow>
            interval_120_step username remote_id r
              = Some (Inr (interval_passed 4 (split_ws ds_reply) r3)))
       \<and> (reported = ''119'' \<longrightarrow>
            interval_120_body username remote_id r
              = interval_violation 4 username (split_ws ds_reply) r3)
       \<and> (4 < length (step_results_p r3) \<longrightarrow>
            step_results_p (interval_passed 4 (split_ws ds_reply) r3) ! 4)"
proof -
  have body: "interval_120_body username remote_id r
           = (if reported = ''120''
              then Inr (True, interval_passed 4 (split_ws ds_reply) r3)
              else interval_violation 4 username (split_ws ds_reply) r3)"
    using assms
    by (simp add: interval_120_body_def interval_check_def interval_decision_def Let_def)
  then have "reported = ''120'' \<Longrightarrow> interval_120_step username remote_id r
              = Some (Inr (interval_passed 4 (split_ws ds_reply) r3))"
    by (simp add: interval_120_step_def while_step_done)
  with body show ?thesis by (simp add: interval_passed_def)
qed

theorem interval_exact_match_witness:
  "map_option (map_sum id (\<lambda>r. (step_results_p r ! 4, testdata r ! 4, stdin r)))
     (interval_120_step ''Ann Lee'' ''01''
        (example_run (burst 100 ''<Executed/>''
                      @ burst 5100 (example_status ''04 Nov 2026 09:30:07'' ''120''))
           [''y'', ''n'']))
   = Some (Inr (True,
                Some (''Sampling configuration changed successfully.'' @ [CR, LF]
                      @ ''sample interval = 120 seconds''),
                [''y'', ''n'']))
   \<and> map_option (map_sum id (\<lambda>r. (step_results_p r ! 4, testdata r ! 4, stdin r)))
     (interval_120_step ''Ann Lee'' ''01''
        (example_run (burst 100 ''<Executed/>''
                      @ burst 5100 (example_status ''04 Nov 2026 09:30:07'' ''119''))
           [''y'', ''n'']))
   = Some (Inr (False,
                Some (''The sample interval was not set successfully.'' @ [CR, LF]),
                []))"
proof -
  define ds where "ds = example_status ''04 Nov 2026 09:30:07''"
  define r where "r = (\<lambda>iv. example_run (burst 100 ''<Executed/>'' @ burst 5100 (ds iv))
     [''y'', ''n''])"
  define w where "w = (\<lambda>iv. (r iv)\<lparr>testdata := (testdata (r iv))[4 := Some ''Test not completed.'']\<rparr>)"
  define r2 where "r2 = (\<lambda>iv. (w iv)\<lparr>serial := (serial (w iv))\<lparr>in_buffer := [],
       incoming := after_timeout (timeout (serial (w iv))) (burst 5100 (ds iv)),
       written := written (serial (w iv)) @ (''#'' @ ''01'' @ ''sampleinterval=120'') @ [CR, LF]\<rparr>,
     capture_file := (capture_file (w iv))
       \<lparr>file_text := file_text (capture_file (w iv)) @ ''<Executed/>''\<rparr>\<rparr>)"
  define r3 where "r3 = (\<lambda>iv. (r2 iv)\<lparr>serial := (serial (r2 iv))\<lparr>in_buffer := [],
       incoming := after_timeout (timeout (serial (r2 iv))) [],
       written := written (serial (r2 iv)) @ (''#'' @ ''01'' @ ''ds'') @ [CR, LF]\<rparr>,
     capture_file := (capture_file (r2 iv))
       \<lparr>file_text := file_text (capture_file (r2 iv)) @ ds iv\<rparr>\<rparr>)"
  have ne: "ds iv \<noteq> []" for iv by (simp add: ds_def example_status_def)
  have asc: "list_all is_ascii (ds iv)" if "list_all is_ascii iv" for iv
    using that by (simp add: ds_def example_status_def is_ascii_def CR_def LF_def)
  have e1: "coms (w iv) (''#'' @ ''01'' @ ''sampleinterval=120'') = Inr (''<Executed/>'', r2 iv)"
    for iv
    unfolding r2_def
    by (rule coms_burst [where d = 100])
       (simp_all add: w_def r_def example_run_fields is_ascii_def ne
          burst_late [of _ _ _ "[]", simplified])
  have e2: "coms (r2 iv) (''#'' @ ''01'' @ ''ds'') = Inr (ds iv, r3 iv)"
    if "list_all is_ascii iv" for iv
    unfolding r3_def
    by (rule coms_burst [where d = 100])
       (simp_all add: r2_def w_def r_def example_run_fields is_ascii_def
          after_timeout_burst0 [OF ne] asc [OF that])
  have fields: "stdin (r3 iv) = [''y'', ''n'']"
    "step_results_p (r3 iv) = [True, True, True, False, False, False, False, False, False, False]"
    "length (testdata (r3 iv)) = 10" for iv
    by (simp_all add: r3_def r2_def w_def r_def example_run_fields)
  have g: "getitem (split_ws (ds ''120'')) 29 = Inr ''120''"
    "getitem (split_ws (ds ''119'')) 29 = Inr ''119''"
    unfolding ds_def
    by (subst example_status_words, simp add: getitem_def split_ws_def is_space_def CR_def LF_def)+
  have pass: "interval_120_step ''Ann Lee'' ''01'' (r ''120'')
              = Some (Inr (interval_passed 4 (split_ws (ds ''120'')) (r3 ''120'')))"
    using interval_exact_match [OF e1 [unfolded w_def] e2 g(1), of "''Ann Lee''"]
    by (simp add: is_ascii_def)
  have "interval_120_body ''Ann Lee'' ''01'' (r ''119'')
              = interval_violation 4 ''Ann Lee'' (split_ws (ds ''119'')) (r3 ''119'')"
    using interval_exact_match [OF e1 [unfolded w_def] e2 g(2), of "''Ann Lee''"]
    by (simp add: is_ascii_def)
  also have "\<dots> = Inr (True, (r3 ''119'')\<lparr>stdin := [], testdata := (testdata (r3 ''119''))
      [4 := Some (''The sample interval was not set successfully.'' @ [CR, LF])]\<rparr>)"
    by (simp add: interval_violation_def ask_bother_def getitem_def split_ws_def is_space_def
        py_input_def fields)
  finally have fail: "interval_120_step ''Ann Lee'' ''01'' (r ''119'')
      = Some (Inr ((r3 ''119'')\<lparr>stdin := [], testdata := (testdata (r3 ''119''))
          [4 := Some (''The sample interval was not set successfully.'' @ [CR, LF])]\<rparr>))"
    by (simp add: interval_120_step_def while_step_done)
  have words: "take 5 (drop 26 (split_ws (ds ''120'')))
      = [''sample'', ''interval'', ''='', ''120'', ''seconds'']"
    unfolding ds_def
    by (subst example_status_words) (simp add: split_ws_def is_space_def CR_def LF_def)
  have p1: "map_option (map_sum id (\<lambda>r. (step_results_p r ! 4, testdata r ! 4, stdin r)))
     (interval_120_step ''Ann Lee'' ''01'' (r ''120''))
   = Some (Inr (True,
                Some (''Sampling configuration changed successfully.'' @ [CR, LF]
                      @ ''sample interval = 120 seconds''),
                [''y'', ''n'']))"
    unfolding pass by (simp add: interval_passed_def words fields)
  have p2: "map_option (map_sum id (\<lambda>r. (step_results_p r ! 4, testdata r ! 4, stdin r)))
     (interval_120_step ''Ann Lee'' ''01'' (r ''119''))
   = Some (Inr (False,
                Some (''The sample interval was not set successfully.'' @ [CR, LF]),
                []))"
    unfolding fail by (simp add: fields)
  from p1 p2 show ?thesis unfolding r_def ds_def by blast
qed

section \<open>The checks on the two samples\<close>

lemmas float_eval = float_item_def getitem_def py_float_def strip_def is_space_def is_digit_def
  nat_of_digits_def digit_val_def





section \<open>The result lists\<close>


lemma while_step_progress_aux:
  assumes "while_step body s = Some y"
  shows "(\<forall>x c t. body x = Inr (c, t) \<longrightarrow> f x < f t)
     \<longrightarrow> (\<forall>s'. y = Inr s' \<longrightarrow> (f s :: nat) < f s')"
proof (rule while_step.raw_induct [OF _ assms], goal_cases)
  case (1 w body s y)
  show ?case
  proof (intro impI allI)
    fix s' assume step: "\<forall>x c t. body x = Inr (c, t) \<longrightarrow> f x < f t" and y: "y = Inr s'"
    from 1(2) y obtain c t where bt: "body s = Inr (c, t)"
      by (cases "body s") (auto split: if_splits)
    from step bt have lt: "f s < f t" by blast
    show "f s < f s'"
    proof (cases c)
      case True
      with 1(2) y bt have "s' = t" by simp
      with lt show ?thesis by simp
    next
      case False
      with 1(2) y bt have "w body t = Some (Inr s')" by simp
      from 1(1) [OF this] step have "f t < f s'" by blast
      with lt show ?thesis by simp
    qed
  qed
qed

lemma while_step_progress:
  assumes step: "\<And>x b y. body x = Inr (b, y) \<Longrightarrow> f x < f y"
    and run: "while_step body s = Some (Inr s')"
  shows "(f s :: nat) < f s'"
  using while_step_progress_aux [OF run, of f] step by blast

lemma same_lengths_refl [simp]: "same_lengths r r"
  by (simp add: same_lengths_def)

lemma same_lengths_trans: "same_lengths a b \<Longrightarrow> same_lengths b c \<Longrightarrow> same_lengths a c"
  by (simp add: same_lengths_def)

lemma coms_lengths: "coms r cmd = Inr (reply, r') \<Longrightarrow> same_lengths r r'"
  by (auto simp: coms_def same_lengths_def split: sum.splits)

lemma py_input_lengths: "py_input r = Inr (l, r') \<Longrightarrow> same_lengths r r'"
  by (auto simp: py_input_def same_lengths_def split: list.splits)

lemma ask_bother_lengths: "ask_bother u r = Inr (l, r') \<Longrightarrow> same_lengths r r'"
  by (auto simp: ask_bother_def split: sum.splits dest: py_input_lengths)

lemma utcnow_lengths: "utcnow r = (n, r') \<Longrightarrow> same_lengths r r'"
  by (auto simp: utcnow_def same_lengths_def)

lemma acquire_lengths: "acquire rid r = Inr (s, r') \<Longrightarrow> same_lengths r r'"
  by (auto simp: acquire_def split: sum.splits dest: coms_lengths)

lemma date_stamp_violation_lengths:
  "date_stamp_violation u s r = Inr (b, r') \<Longrightarrow> same_lengths r r'"
  by (auto simp: date_stamp_violation_def date_stamp_passed_def same_lengths_def
      split: sum.splits if_splits dest!: ask_bother_lengths py_input_lengths)

lemma date_stamp_check_lengths:
  "date_stamp_check u s r = Inr (b, r') \<Longrightarrow> same_lengths r r'"
  by (auto simp: date_stamp_check_def date_stamp_passed_def utcnow_def same_lengths_def
      split: sum.splits if_splits prod.splits dest!: date_stamp_violation_lengths)

lemma values_violation_lengths:
  "values_violation u s r = Inr (b, r') \<Longrightarrow> same_lengths r r'"
  by (auto simp: values_violation_def values_passed_def same_lengths_def
      split: sum.splits if_splits dest!: ask_bother_lengths py_input_lengths)

lemma values_check_lengths:
  "values_check u s r = Inr (b, r') \<Longrightarrow> same_lengths r r'"
  by (auto simp: values_check_def values_passed_def same_lengths_def
      split: sum.splits if_splits dest!: values_violation_lengths)

lemma pressure_violation_lengths:
  "pressure_violation u s r = Inr (b, r') \<Longrightarrow> same_lengths r r'"
  by (auto simp: pressure_violation_def pressure_passed_def same_lengths_def
      split: sum.splits if_splits dest!: ask_bother_lengths py_input_lengths)

lemma pressure_check_lengths:
  "pressure_check u sb sa r = Inr (b, r') \<Longrightarrow> same_lengths r r'"
  by (auto simp: pressure_check_def pressure_passed_def same_lengths_def
      split: sum.splits if_splits dest!: pressure_violation_lengths)

lemma temperature_violation_lengths:
  "temperature_violation u s r = Inr (b, r') \<Longrightarrow> same_lengths r r'"
  by (auto simp: temperature_violation_def temperature_passed_def same_lengths_def
      split: sum.splits if_splits dest!: ask_bother_lengths py_input_lengths)

lemma temperature_check_lengths:
  "temperature_check u sb sa r = Inr (b, r') \<Longrightarrow> same_lengths r r'"
  by (auto simp: temperature_check_def temperature_passed_def same_lengths_def
      split: sum.splits if_splits dest!: temperature_violation_lengths)

lemma bucket_checks_lengths:
  assumes "bucket_checks u rid sa r = Inr (b, r')"
  shows "same_lengths r r'"
proof -
  from assms obtain e r1 where i: "py_input r = Inr (e, r1)"
    by (auto simp: bucket_checks_def split: sum.splits)
  from assms i obtain sb r2 where a: "acquire rid r1 = Inr (sb, r2)"
    by (auto simp: bucket_checks_def split: sum.splits)
  from assms i a obtain g r3 where p: "pressure_check u sb sa r2 = Inr (g, r3)"
    by (auto simp: bucket_checks_def split: sum.splits)
  from assms i a p have "same_lengths r3 r'"
    by (auto simp: bucket_checks_def split: if_splits dest: temperature_check_lengths)
  with py_input_lengths [OF i] acquire_lengths [OF a] pressure_check_lengths [OF p]
  show ?thesis by (blast intro: same_lengths_trans)
qed

lemma slice_assign_grows:
  "length (slice_assign xs 6 8 (replicate 3 v)) = max (length xs + 1) 9 - (6 - min 6 (length xs))"
  by (auto simp: slice_assign_def)

lemma sample_body_grows:
  assumes "sample_body u rid r = Inr (b, r')"
  shows "length (step_results_p r') = length (slice_assign (step_results_p r) 6 8 (replicate 3 False))
     \<and> length (testdata r') = length (slice_assign (testdata r) 6 8 (replicate 3 (Some ''Test not completed.'')))"
proof -
  let ?r2 = "r\<lparr>step_results_p := slice_assign (step_results_p r) 6 8 (replicate 3 False),
     testdata := slice_assign (testdata r) 6 8 (replicate 3 (Some ''Test not completed.''))\<rparr>"
  from assms obtain sa r3 where a: "acquire rid ?r2 = Inr (sa, r3)"
    by (auto simp: sample_body_def Let_def split: sum.splits)
  from assms a obtain g r4 where d: "date_stamp_check u sa r3 = Inr (g, r4)"
    by (auto simp: sample_body_def Let_def split: sum.splits)
  have "same_lengths r4 r'"
  proof (cases g)
    case False
    with assms a d show ?thesis by (simp add: sample_body_def Let_def)
  next
    case True
    with assms a d obtain g2 r5 where v: "values_check u sa r4 = Inr (g2, r5)"
      by (auto simp: sample_body_def Let_def split: sum.splits)
    with assms a d True have "same_lengths r5 r'"
      by (auto simp: sample_body_def Let_def split: if_splits dest: bucket_checks_lengths)
    with values_check_lengths [OF v] show ?thesis by (blast intro: same_lengths_trans)
  qed
  with acquire_lengths [OF a] date_stamp_check_lengths [OF d]
  have "same_lengths ?r2 r'" by (blast intro: same_lengths_trans)
  then show ?thesis by (simp add: same_lengths_def)
qed

lemma replicate_3: "replicate 3 x = [x, x, x]"
  by (simp add: numeral_3_eq_3)

lemmas csv_eval = split_csv_def getitem_def splitlines_def is_linebreak_def strip_def
  is_space_def CR_def LF_def example_sample_def

lemmas stamp_eval = strptime_dbY_def strptime_fields_def split_ws_def is_space_def
  number_upto_def month_abbr_def year_4_def is_digit_def nat_of_digits_def digit_val_def
  lower_def days_in_month_def is_leap_def date_of_def

text \<open>
  Claim C1 fails on the code. The body of the loop of step 8.3.13 begins with
  \<open>step_results_p[6:8] = [False] * 3\<close> and \<open>testdata[6:8] = [...] * 3\<close>: a slice of two
  entries is replaced by three. Every execution of the body, the first one and each
  retry, makes both lists one entry longer, so a step that completes leaves more
  than the ten entries it started with; the entry at the end keeps its placeholder.
\<close>

theorem sample_step_grows_lists:
  assumes "sample_step username remote_id r = Some (Inr r')"
  shows "length (step_results_p r) < length (step_results_p r')
       \<and> length (testdata r) < length (testdata r')"
proof -
  have 1: "length (step_results_p x) < length (step_results_p y)"
    if "sample_body username remote_id x = Inr (b, y)" for x b y
    using sample_body_grows [OF that] by (auto simp: slice_assign_def)
  have 2: "length (testdata x) < length (testdata y)"
    if "sample_body username remote_id x = Inr (b, y)" for x b y
    using sample_body_grows [OF that] by (auto simp: slice_assign_def)
  from while_step_progress [of "sample_body username remote_id" "\<lambda>r. length (step_results_p r)", OF 1]
    while_step_progress [of "sample_body username remote_id" "\<lambda>r. length (testdata r)", OF 2]
    assms show ?thesis by (simp add: sample_step_def)
qed

theorem sample_step_grows_lists_witness:
  "map_option (map_sum id (\<lambda>r. (step_results_p r, testdata r)))
     (sample_step ''Ann Lee'' ''01''
        (example_run (burst 100 (example_sample ''20.0'' ''0.00001'' ''0.012'')
                      @ burst 5100 (example_sample ''22.5'' ''0.00001'' ''1.5'')) [[]]))
   = Some (Inr ([True, True, True, False, False, False, True, True, True, True, False],
                [Some ''Established communication with instrument.'',
                 Some ''Serial number confirmed.'', Some ''Firmware 2.3b confirmed.'',
                 None, None, None,
                 Some ''Correct date stamp confirmed.'',
                 Some (''Sample values seem reasonable.'' @ [CR, LF]
                       @ ''03712345, 20.0, 0.00001, 0.012, 04 Nov 2026, 09:30:40''),
                 Some ''Pressure sensor correctly records changes.'',
                 Some ''Temp data changes as expected.'',
                 None]))
   \<and> length (step_results_p (example_run [] [])) = 10
   \<and> length (testdata (example_run [] [])) = 10"
proof -
  define air where "air = example_sample ''20.0'' ''0.00001'' ''0.012''"
  define bucket where "bucket = example_sample ''22.5'' ''0.00001'' ''1.5''"
  define sa where "sa = [''03712345'', ''20.0'', ''0.00001'', ''0.012'', ''04 Nov 2026'', ''09:30:40'']"
  define sb where "sb = [''03712345'', ''22.5'', ''0.00001'', ''1.5'', ''04 Nov 2026'', ''09:30:40'']"
  define r where "r = example_run (burst 100 air @ burst 5100 bucket) [[]]"
  define r2 where "r2 = r\<lparr>step_results_p := slice_assign (step_results_p r) 6 8 (replicate 3 False),
     testdata := slice_assign (testdata r) 6 8 (replicate 3 (Some ''Test not completed.''))\<rparr>"
  define r3 where "r3 = r2\<lparr>serial := (serial r2)\<lparr>in_buffer := [],
       incoming := after_timeout (timeout (serial r2)) (burst 5100 bucket),
       written := written (serial r2) @ (''#'' @ ''01'' @ ''ts'') @ [CR, LF]\<rparr>,
     capture_file := (capture_file r2)\<lparr>file_text := file_text (capture_file r2) @ air\<rparr>\<rparr>"
  define r4 where "r4 = date_stamp_passed (r3\<lparr>ticks := Suc (ticks r3)\<rparr>)"
  define r5 where "r5 = values_passed sa r4"
  define r6 where "r6 = r5\<lparr>stdin := []\<rparr>"
  define r7 where "r7 = r6\<lparr>serial := (serial r6)\<lparr>in_buffer := [],
       incoming := after_timeout (timeout (serial r6)) [],
       written := written (serial r6) @ (''#'' @ ''01'' @ ''ts'') @ [CR, LF]\<rparr>,
     capture_file := (capture_file r6)\<lparr>file_text := file_text (capture_file r6) @ bucket\<rparr>\<rparr>"
  define r9 where "r9 = temperature_passed (pressure_passed r7)"
  have ne: "air \<noteq> []" "bucket \<noteq> []" by (simp_all add: air_def bucket_def example_sample_def)
  have asc: "list_all is_ascii air" "list_all is_ascii bucket"
    by (simp_all add: air_def bucket_def example_sample_def is_ascii_def CR_def LF_def)
  have csv: "split_csv air = Inr sa" "split_csv bucket = Inr sb"
    by (simp_all add: air_def bucket_def sa_def sb_def csv_eval)
  have c1: "coms r2 (''#'' @ ''01'' @ ''ts'') = Inr (air, r3)"
    unfolding r3_def
    by (rule coms_burst [where d = 100])
       (simp_all add: r2_def r_def example_run_fields is_ascii_def ne asc
          burst_late [of _ _ _ "[]", simplified])
  have a1: "acquire ''01'' r2 = Inr (sa, r3)"
    using c1 csv by (simp add: acquire_def)
  have f3: "clock r3 (ticks r3) = \<lparr>year = 2026, month = 11, day = 4, hour = 9, minute = 30,
      second = 0, microsecond = 0\<rparr>" "stdin r3 = [[]]"
    by (simp_all add: r3_def r2_def r_def example_run_def)
  have d1: "date_stamp_check ''Ann Lee'' sa r3 = Inr (True, r4)"
    by (simp add: date_stamp_check_def getitem_def sa_def utcnow_def f3 stamp_eval r4_def)
  have fl: "float_item sa 1 = Inr 20" "float_item sa 2 = Inr 0.00001" "float_item sa 3 = Inr 0.012"
    "float_item sb 1 = Inr 22.5" "float_item sb 3 = Inr 1.5"
    by (simp_all add: sa_def sb_def float_eval)
  have v1: "values_check ''Ann Lee'' sa r4 = Inr (True, r5)"
    using fl by (simp add: values_check_def values_out_of_bounds_def r5_def)
  have f5: "stdin r5 = [[]]"
    by (simp add: r5_def values_passed_def r4_def date_stamp_passed_def f3)
  have i1: "py_input r5 = Inr ([], r6)"
    by (simp add: py_input_def f5 r6_def)
  have s6: "serial r6 = serial r3" "capture_file r6 = capture_file r3"
    by (simp_all add: r6_def r5_def values_passed_def r4_def date_stamp_passed_def)
  have s3: "serial r3 = \<lparr>is_open = True, timeout = 5000, in_buffer = [],
      incoming = burst 100 bucket, written = (''#'' @ ''01'' @ ''ts'') @ [CR, LF]\<rparr>"
    "file_closed (capture_file r3) = False"
    by (simp_all add: r3_def r2_def r_def example_run_fields after_timeout_burst0 ne)
  have c2: "coms r6 (''#'' @ ''01'' @ ''ts'') = Inr (bucket, r7)"
    unfolding r7_def
    by (rule coms_burst [where d = 100]) (simp_all add: s6 s3 is_ascii_def asc)
  have a2: "acquire ''01'' r6 = Inr (sb, r7)"
    using c2 csv by (simp add: acquire_def)
  have b1: "bucket_checks ''Ann Lee'' ''01'' sa r5 = Inr (True, r9)"
    using i1 a2 fl
    by (simp add: bucket_checks_def pressure_check_def pressure_not_greater_def
        temperature_check_def temperature_rise_too_small_def r9_def)
  have body: "sample_body ''Ann Lee'' ''01'' r = Inr (True, r9)"
    using a1 d1 v1 b1 by (simp add: sample_body_def Let_def r2_def)
  then have run: "sample_step ''Ann Lee'' ''01'' r = Some (Inr r9)"
    by (simp add: sample_step_def while_step_done)
  have lists: "step_results_p r9
      = [True, True, True, False, False, False, True, True, True, True, False]"
    "testdata r9 = [Some ''Established communication with instrument.'',
                 Some ''Serial number confirmed.'', Some ''Firmware 2.3b confirmed.'',
                 None, None, None,
                 Some ''Correct date stamp confirmed.'',
                 Some (''Sample values seem reasonable.'' @ [CR, LF]
                       @ ''03712345, 20.0, 0.00001, 0.012, 04 Nov 2026, 09:30:40''),
                 Some ''Pressure sensor correctly records changes.'',
                 Some ''Temp data changes as expected.'',
                 None]"
    by (simp_all add: r9_def temperature_passed_def pressure_passed_def r7_def r6_def r5_def
        values_passed_def r4_def date_stamp_passed_def r3_def r2_def r_def example_run_fields
        slice_assign_def replicate_3 sa_def)
  from sample_step_grows_lists [OF run] run lists
  show ?thesis unfolding r_def air_def bucket_def by (simp add: example_run_fields)
qed

section \<open>Cancelling the handshake\<close>






















end
